theory Spec2Isabelle
  imports Complex_Main "HOL-Library.AList"
begin

section \<open>Data model of \<^verbatim>\<open>market_analysis.py\<close>\<close>

text \<open>
  The module works on pandas tables. A float column is a list of optional reals, \<open>None\<close>
  standing for a missing value (NaN); arithmetic is over the reals, so rounding and the
  IEEE infinities are outside the model. A table is its row labels together with its
  named columns, all columns as long as the label list. The price table handed to
  \<^verbatim>\<open>MarketAnalysis\<close> may carry a \<^verbatim>\<open>date\<close> column; calendar dates are day numbers.
\<close>

datatype error = KeyError string

type_synonym series = "real option list"

record frame =
  index :: "int list"
  columns :: "(string \<times> series) list"

record price_data = frame +
  date :: "int list option"

datatype TrendRegime = UPTREND | DOWNTREND | SIDEWAYS | UNCLASSIFIED

datatype VolatilityRegime = HIGH | MEDIUM | LOW

fun trend_value :: "TrendRegime \<Rightarrow> string" where
  "trend_value UPTREND = ''uptrend''"
| "trend_value DOWNTREND = ''downtrend''"
| "trend_value SIDEWAYS = ''sideways''"
| "trend_value UNCLASSIFIED = ''unclassified''"

fun vol_value :: "VolatilityRegime \<Rightarrow> string" where
  "vol_value HIGH = ''high''"
| "vol_value MEDIUM = ''medium''"
| "vol_value LOW = ''low''"

text \<open>Iterating over an \<^verbatim>\<open>Enum\<close> class visits its members in definition order.\<close>

definition all_TrendRegime :: "TrendRegime list" where
  "all_TrendRegime = [UPTREND, DOWNTREND, SIDEWAYS, UNCLASSIFIED]"

definition all_VolatilityRegime :: "VolatilityRegime list" where
  "all_VolatilityRegime = [HIGH, MEDIUM, LOW]"

record RegimeMetrics =
  n_trades :: nat
  win_rate :: real
  avg_pnl :: real
  total_pnl :: real
  sharpe :: "real option"

text \<open>
  One row of the regime calendar: the object columns \<^verbatim>\<open>trend\<close> and \<^verbatim>\<open>volatility\<close>
  (a label, or missing) and the \<^verbatim>\<open>atr\<close> column. The calendar is the list of its rows,
  each with its row label (the date).
\<close>

record regime_row =
  trend :: "string option"
  volatility :: "string option"
  atr :: "real option"

type_synonym regimes = "(int \<times> regime_row) list"

text \<open>
  A trade of the trade log: \<^verbatim>\<open>entry_time\<close> is a timestamp in nanoseconds since the
  epoch, \<^verbatim>\<open>pnl\<close> the profit or loss. A row of \<^verbatim>\<open>trades_with_regimes\<close> is the trade,
  its \<^verbatim>\<open>return_pct\<close> and the three columns merged in from the calendar.
\<close>

record trade =
  entry_time :: int
  pnl :: real

record tagged_trade =
  src_trade :: trade
  return_pct :: real
  regime :: regime_row

section \<open>Column operations of pandas used by the module\<close>

definition getitem :: "(string \<times> series) list \<Rightarrow> string \<Rightarrow> error + series" where
  "getitem cs k = (case map_of cs k of None \<Rightarrow> Inl (KeyError k) | Some s \<Rightarrow> Inr s)"

text \<open>The observations of a column, missing values skipped.\<close>

fun valid :: "'a option list \<Rightarrow> 'a list" where
  "valid [] = []"
| "valid (None # xs) = valid xs"
| "valid (Some v # xs) = v # valid xs"

text \<open>
  \<^verbatim>\<open>groupby(key)[col]\<close>: the group of a key holds the column's cells on the rows with
  that key, in row order; the result is labelled by the distinct keys in ascending order.
  The aggregations skip missing cells: \<^verbatim>\<open>first\<close>, \<^verbatim>\<open>last\<close>, \<^verbatim>\<open>max\<close> and \<^verbatim>\<open>min\<close>
  of a group without observations are missing, its \<^verbatim>\<open>sum\<close> is 0.
\<close>

definition group_keys :: "int list \<Rightarrow> int list" where
  "group_keys ks = sort (remdups ks)"

definition group_of :: "int list \<Rightarrow> 'a list \<Rightarrow> int \<Rightarrow> 'a list" where
  "group_of ks xs k = map snd (filter (\<lambda>p. fst p = k) (zip ks xs))"

definition agg_first :: "series \<Rightarrow> real option" where
  "agg_first g = (case valid g of [] \<Rightarrow> None | v # vs \<Rightarrow> Some v)"

definition agg_last :: "series \<Rightarrow> real option" where
  "agg_last g = (case rev (valid g) of [] \<Rightarrow> None | v # vs \<Rightarrow> Some v)"

definition agg_max :: "series \<Rightarrow> real option" where
  "agg_max g = (case valid g of [] \<Rightarrow> None | v # vs \<Rightarrow> Some (fold max vs v))"

definition agg_min :: "series \<Rightarrow> real option" where
  "agg_min g = (case valid g of [] \<Rightarrow> None | v # vs \<Rightarrow> Some (fold min vs v))"

definition agg_sum :: "series \<Rightarrow> real option" where
  "agg_sum g = Some (sum_list (valid g))"

definition groupby :: "(series \<Rightarrow> real option) \<Rightarrow> int list \<Rightarrow> series \<Rightarrow> series" where
  "groupby agg ks xs = map (\<lambda>k. agg (group_of ks xs k)) (group_keys ks)"

text \<open>\<^verbatim>\<open>ffill\<close>: a missing cell takes the last observation above it, if there is one.\<close>

fun ffill_from :: "real option \<Rightarrow> series \<Rightarrow> series" where
  "ffill_from prev [] = []"
| "ffill_from prev (None # xs) = prev # ffill_from prev xs"
| "ffill_from prev (Some v # xs) = Some v # ffill_from (Some v) xs"

definition ffill :: "series \<Rightarrow> series" where
  "ffill xs = ffill_from None xs"

text \<open>\<^verbatim>\<open>shift(1)\<close>: every cell moves one row down, the first cell is missing.\<close>

definition shift1 :: "'a option list \<Rightarrow> 'a option list" where
  "shift1 xs = (case xs of [] \<Rightarrow> [] | _ # _ \<Rightarrow> None # butlast xs)"

text \<open>
  \<^verbatim>\<open>ewm(span=s, min_periods=1).mean()\<close> with the defaults \<^verbatim>\<open>adjust=True\<close> and
  \<^verbatim>\<open>ignore_na=False\<close>: the running state is the weighted mean so far (missing until the
  first observation) and the weight \<^verbatim>\<open>old_wt\<close> of the past; each row decays the past by
  \<open>1 - \<alpha>\<close>, \<open>\<alpha> = 2 / (s + 1)\<close>, and an observation enters with weight 1.
\<close>

fun ewm_step :: "real \<Rightarrow> real option \<times> real \<Rightarrow> real option \<Rightarrow> real option \<times> real" where
  "ewm_step f (None, old_wt) None = (None, old_wt)"
| "ewm_step f (None, old_wt) (Some cur) = (Some cur, old_wt)"
| "ewm_step f (Some w, old_wt) None = (Some w, old_wt * f)"
| "ewm_step f (Some w, old_wt) (Some cur) =
     (Some ((old_wt * f * w + cur) / (old_wt * f + 1)), old_wt * f + 1)"

fun ewm_from :: "real \<Rightarrow> real option \<times> real \<Rightarrow> series \<Rightarrow> series" where
  "ewm_from f st [] = []"
| "ewm_from f st (x # xs) = fst (ewm_step f st x) # ewm_from f (ewm_step f st x) xs"

definition ewm_mean :: "nat \<Rightarrow> series \<Rightarrow> series" where
  "ewm_mean sp xs =
     (case xs of [] \<Rightarrow> [] | x # rest \<Rightarrow> x # ewm_from (1 - 2 / (real sp + 1)) (x, 1) rest)"

text \<open>Cell-wise arithmetic and comparisons; a comparison with a missing cell is false.\<close>

definition sub :: "real option \<Rightarrow> real option \<Rightarrow> real option" where
  "sub a b = (case (a, b) of (Some x, Some y) \<Rightarrow> Some (x - y) | _ \<Rightarrow> None)"

definition abs_cell :: "real option \<Rightarrow> real option" where
  "abs_cell a = map_option abs a"

definition fillna :: "'a \<Rightarrow> 'a option \<Rightarrow> 'a" where
  "fillna d a = (case a of None \<Rightarrow> d | Some x \<Rightarrow> x)"

definition gt :: "real option \<Rightarrow> real option \<Rightarrow> bool" where
  "gt a b = (case (a, b) of (Some x, Some y) \<Rightarrow> x > y | _ \<Rightarrow> False)"

definition le :: "real option \<Rightarrow> real option \<Rightarrow> bool" where
  "le a b = (case (a, b) of (Some x, Some y) \<Rightarrow> x \<le> y | _ \<Rightarrow> False)"

definition ge :: "real option \<Rightarrow> real option \<Rightarrow> bool" where
  "ge a b = (case (a, b) of (Some x, Some y) \<Rightarrow> x \<ge> y | _ \<Rightarrow> False)"

text \<open>
  \<^verbatim>\<open>dropna\<close>: the rows with a missing cell in any column are removed, from the labels
  and from every column.
\<close>

definition row_complete :: "frame \<Rightarrow> nat \<Rightarrow> bool" where
  "row_complete f i = list_all (\<lambda>c. snd c ! i \<noteq> None) (columns f)"

definition take_rows :: "nat list \<Rightarrow> 'a list \<Rightarrow> 'a list" where
  "take_rows keep xs = map (\<lambda>i. xs ! i) keep"

definition dropna :: "frame \<Rightarrow> frame" where
  "dropna f =
     (let keep = filter (row_complete f) [0..<length (index f)]
      in \<lparr>index = take_rows keep (index f),
          columns = map (\<lambda>c. (fst c, take_rows keep (snd c))) (columns f)\<rparr>)"

text \<open>
  \<^verbatim>\<open>Series.quantile\<close> with linear interpolation over the observations: position
  \<open>q (n - 1)\<close> in the sorted values; missing for a column without observations.
\<close>

definition quantile :: "series \<Rightarrow> real \<Rightarrow> real option" where
  "quantile xs q =
     (let s = sort (valid xs); n = length s
      in if n = 0 then None
         else let pos = q * real (n - 1); lo = nat \<lfloor>pos\<rfloor>; hi = min (lo + 1) (n - 1)
              in Some (s ! lo + (pos - real lo) * (s ! hi - s ! lo)))"

text \<open>\<^verbatim>\<open>s[mask] = label\<close>: the cells where the mask holds take the label.\<close>

definition assign_mask :: "string option list \<Rightarrow> bool list \<Rightarrow> string \<Rightarrow> string option list" where
  "assign_mask s msk label = map (\<lambda>(c, m). if m then Some label else c) (zip s msk)"

definition isna :: "'a option list \<Rightarrow> bool list" where
  "isna s = map (\<lambda>c. c = None) s"

section \<open>\<^verbatim>\<open>MarketAnalysis._prepare_daily_data\<close>\<close>

definition short_ma :: nat where "short_ma = 20"
definition long_ma :: nat where "long_ma = 200"
definition vol_window :: nat where "vol_window = 21"

text \<open>
  The true range: the row-wise maximum of the three columns of \<^verbatim>\<open>tr\<close>, each with its
  missing cells replaced by 0.
\<close>

definition true_range :: "series \<Rightarrow> series \<Rightarrow> series \<Rightarrow> series" where
  "true_range h l c =
     map (\<lambda>(hi, lo, pc).
            Some (max (fillna 0 (sub hi lo))
                   (max (fillna 0 (abs_cell (sub hi pc))) (fillna 0 (abs_cell (sub lo pc))))))
         (zip h (zip l (shift1 c)))"

definition daily_frame :: "int list \<Rightarrow> series \<Rightarrow> series \<Rightarrow> series \<Rightarrow> series \<Rightarrow> series \<Rightarrow> frame" where
  "daily_frame ds op hi lo cl vo =
     (let op' = ffill (groupby agg_first ds op);
          hi' = ffill (groupby agg_max ds hi);
          lo' = ffill (groupby agg_min ds lo);
          cl' = ffill (groupby agg_last ds cl);
          vo' = ffill (groupby agg_sum ds vo)
      in \<lparr>index = group_keys ds,
          columns = [(''open'', op'), (''high'', hi'), (''low'', lo'), (''close'', cl'),
                     (''volume'', vo'),
                     (''ma_short'', ewm_mean short_ma cl'),
                     (''ma_long'', ewm_mean long_ma cl'),
                     (''atr'', ewm_mean vol_window (true_range hi' lo' cl'))]\<rparr>)"

definition prepare_daily_data :: "price_data \<Rightarrow> error + frame" where
  "prepare_daily_data d =
     (case date d of
        Some ds \<Rightarrow>
          (case getitem (columns d) ''open'' of Inl e \<Rightarrow> Inl e | Inr op \<Rightarrow>
           case getitem (columns d) ''high'' of Inl e \<Rightarrow> Inl e | Inr hi \<Rightarrow>
           case getitem (columns d) ''low'' of Inl e \<Rightarrow> Inl e | Inr lo \<Rightarrow>
           case getitem (columns d) ''close'' of Inl e \<Rightarrow> Inl e | Inr cl \<Rightarrow>
           case getitem (columns d) ''volume'' of Inl e \<Rightarrow> Inl e | Inr vo \<Rightarrow>
             Inr (dropna (daily_frame ds op hi lo cl vo)))
      | None \<Rightarrow> Inr (dropna \<lparr>index = index d, columns = columns d\<rparr>))"

section \<open>\<^verbatim>\<open>MarketAnalysis.classify_regimes\<close>\<close>

definition classify_trend :: "series \<Rightarrow> series \<Rightarrow> series \<Rightarrow> string option list" where
  "classify_trend cl ma_l ma_s =
     (let above_long_ma = map (\<lambda>(a, b). gt a b) (zip cl ma_l);
          rising_short_ma = map (\<lambda>(a, b). gt a b) (zip ma_s (shift1 ma_s));
          conditions = zip above_long_ma rising_short_ma;
          trends0 = replicate (length cl) None;
          trends1 = assign_mask trends0 (map (\<lambda>(a, r). a \<and> r) conditions) (trend_value UPTREND);
          trends2 = assign_mask trends1 (map (\<lambda>(a, r). \<not> (a \<or> r)) conditions) (trend_value DOWNTREND)
      in assign_mask trends2 (isna trends2) (trend_value SIDEWAYS))"

definition classify_volatility :: "series \<Rightarrow> string option list" where
  "classify_volatility a =
     (let q33 = quantile a (33 / 100);
          q67 = quantile a (67 / 100);
          vol0 = replicate (length a) None;
          vol1 = assign_mask vol0 (map (\<lambda>x. le x q33) a) (vol_value LOW);
          vol2 = assign_mask vol1 (map (\<lambda>x. ge x q67) a) (vol_value HIGH)
      in assign_mask vol2 (isna vol2) (vol_value MEDIUM))"

definition classify_regimes :: "frame \<Rightarrow> error + regimes" where
  "classify_regimes dd =
     (case getitem (columns dd) ''close'' of Inl e \<Rightarrow> Inl e | Inr cl \<Rightarrow>
      case getitem (columns dd) ''ma_long'' of Inl e \<Rightarrow> Inl e | Inr ma_l \<Rightarrow>
      case getitem (columns dd) ''ma_short'' of Inl e \<Rightarrow> Inl e | Inr ma_s \<Rightarrow>
      case getitem (columns dd) ''atr'' of Inl e \<Rightarrow> Inl e | Inr a \<Rightarrow>
        Inr (zip (index dd)
              (map (\<lambda>(t, v, x). \<lparr>trend = t, volatility = v, atr = x\<rparr>)
                 (zip (classify_trend cl ma_l ma_s) (zip (classify_volatility a) a)))))"

text \<open>
  The calendar of a price table: the constructor prepares the daily data, the first call
  of \<^verbatim>\<open>classify_regimes\<close> labels it.
\<close>

definition regimes_of :: "price_data \<Rightarrow> error + regimes" where
  "regimes_of d =
     (case prepare_daily_data d of Inl e \<Rightarrow> Inl e | Inr dd \<Rightarrow> classify_regimes dd)"

section \<open>\<^verbatim>\<open>MarketAnalysis._calculate_regime_sharpe\<close>\<close>

text \<open>\<^verbatim>\<open>pd.to_datetime(t).dt.date\<close>: the calendar day of a nanosecond timestamp.\<close>

definition dt_date :: "int \<Rightarrow> int" where
  "dt_date ts = ts div 86400000000000"

text \<open>
  \<^verbatim>\<open>Series.mean\<close> over the observations; pandas answers NaN for no observation, the
  module reads it on non-empty columns only. The division by \<^verbatim>\<open>initial_capital\<close> is the
  division of the reals.

  \<^verbatim>\<open>Series.std\<close> is the floating-point routine of the library, and the module compares
  its result with 0 exactly. What the routine returns is not the standard deviation over
  the reals: on twenty daily returns that are all 0.1 it computes a mean that is not 0.1
  and returns about \<open>1.4e-17\<close>, not 0. The model therefore takes the routine as the
  parameter \<open>std\<close> of the estimator and of everything that calls it, and assumes nothing
  about it.
\<close>

definition mean :: "series \<Rightarrow> real" where
  "mean s = sum_list (valid s) / real (length (valid s))"

definition entry_date :: "tagged_trade \<Rightarrow> int" where
  "entry_date t = dt_date (entry_time (src_trade t))"

definition calculate_regime_sharpe ::
  "(series \<Rightarrow> real) \<Rightarrow> real \<Rightarrow> tagged_trade list \<Rightarrow> real option" where
  "calculate_regime_sharpe std initial_capital regime_trades =
     (if length regime_trades < 20 then None
      else
        let regime_data =
              map (\<lambda>t. t\<lparr>return_pct := pnl (src_trade t) / initial_capital * 100\<rparr>) regime_trades;
            daily_index = group_keys (map entry_date regime_data);
            daily_returns =
              groupby agg_sum (map entry_date regime_data)
                (map (\<lambda>t. Some (return_pct t)) regime_data)
        in if length daily_returns < 20 \<or> std daily_returns = 0 then None
           else
             let trading_days = length (remdups daily_index)
             in if trading_days < 20 then None
                else
                  let annualized_return = mean daily_returns * real trading_days;
                      annualized_vol = std daily_returns * sqrt (real trading_days)
                  in Some (annualized_return / annualized_vol))"

section \<open>\<^verbatim>\<open>MarketAnalysis.analyze_performance\<close>\<close>

text \<open>
  \<^verbatim>\<open>merge(..., how='left')\<close> on the entry date against the calendar's row labels: a
  trade is paired with every calendar row of its date, in calendar order; a trade without
  such a row is kept once, the merged columns missing. Before the merge a trade has no
  regime columns: \<open>trades_analysis\<close> below holds three missing cells in their place, which
  the merge overwrites.
\<close>

definition merge_left :: "tagged_trade list \<Rightarrow> regimes \<Rightarrow> tagged_trade list" where
  "merge_left ts rs =
     concat (map (\<lambda>t. case filter (\<lambda>r. fst r = entry_date t) rs of
                         [] \<Rightarrow> [t\<lparr>regime := \<lparr>trend = None, volatility = None, atr = None\<rparr>\<rparr>]
                       | m # ms \<Rightarrow> map (\<lambda>r. t\<lparr>regime := snd r\<rparr>) (m # ms)) ts)"

definition fill_unclassified :: "tagged_trade \<Rightarrow> tagged_trade" where
  "fill_unclassified t =
     t\<lparr>regime := (regime t)
         \<lparr>trend := Some (fillna (trend_value UNCLASSIFIED) (trend (regime t))),
          volatility := Some (fillna ''unclassified'' (volatility (regime t)))\<rparr>\<rparr>"

definition regime_metrics ::
  "(series \<Rightarrow> real) \<Rightarrow> real \<Rightarrow> tagged_trade list \<Rightarrow> RegimeMetrics" where
  "regime_metrics std initial_capital data =
     \<lparr>n_trades = length data,
      win_rate = real (length (filter (\<lambda>t. pnl (src_trade t) > 0) data)) / real (length data),
      avg_pnl = mean (map (\<lambda>t. Some (pnl (src_trade t))) data),
      total_pnl = sum_list (map (\<lambda>t. pnl (src_trade t)) data),
      sharpe = calculate_regime_sharpe std initial_capital data\<rparr>"

definition add_trend_bucket ::
  "(series \<Rightarrow> real) \<Rightarrow> real \<Rightarrow> tagged_trade list \<Rightarrow> TrendRegime
     \<Rightarrow> (string \<times> RegimeMetrics) list \<Rightarrow> (string \<times> RegimeMetrics) list" where
  "add_trend_bucket std initial_capital trades_with_regimes tr results =
     (let trend_data =
            filter (\<lambda>t. trend (regime t) = Some (trend_value tr)) trades_with_regimes
      in if length trend_data > 0
         then AList.update (trend_value tr @ ''_regime'')
                (regime_metrics std initial_capital trend_data) results
         else results)"

definition add_vol_bucket ::
  "(series \<Rightarrow> real) \<Rightarrow> real \<Rightarrow> tagged_trade list \<Rightarrow> VolatilityRegime
     \<Rightarrow> (string \<times> RegimeMetrics) list \<Rightarrow> (string \<times> RegimeMetrics) list" where
  "add_vol_bucket std initial_capital trades_with_regimes vol results =
     (let vol_data =
            filter (\<lambda>t. volatility (regime t) = Some (vol_value vol)) trades_with_regimes
      in if length vol_data > 0
         then AList.update (vol_value vol @ ''_vol'')
                (regime_metrics std initial_capital vol_data) results
         else results)"

definition analyze_performance ::
  "(series \<Rightarrow> real) \<Rightarrow> real \<Rightarrow> regimes \<Rightarrow> trade list
     \<Rightarrow> (string \<times> RegimeMetrics) list \<times> tagged_trade list" where
  "analyze_performance std initial_capital rs trades_df =
     (let trades_analysis =
            map (\<lambda>t. \<lparr>src_trade = t, return_pct = pnl t / initial_capital * 100,
                       regime = \<lparr>trend = None, volatility = None, atr = None\<rparr>\<rparr>) trades_df;
          trades_with_regimes = map fill_unclassified (merge_left trades_analysis rs);
          results1 = fold (add_trend_bucket std initial_capital trades_with_regimes) all_TrendRegime [];
          results2 =
            fold (add_vol_bucket std initial_capital trades_with_regimes) all_VolatilityRegime results1
      in (results2, trades_with_regimes))"

section \<open>Notions used in the statements\<close>

text \<open>
  What a row of \<^verbatim>\<open>trades_with_regimes\<close> carries apart from \<^verbatim>\<open>return_pct\<close>, and the
  four fields of a bucket that are computed from \<^verbatim>\<open>pnl\<close> alone.
\<close>

definition core :: "tagged_trade \<Rightarrow> trade \<times> regime_row" where
  "core t = (src_trade t, regime t)"

definition metric_fields :: "RegimeMetrics \<Rightarrow> nat \<times> real \<times> real \<times> real" where
  "metric_fields m = (n_trades m, win_rate m, avg_pnl m, total_pnl m)"

definition fields_of ::
  "(string \<times> RegimeMetrics) list \<Rightarrow> (string \<times> nat \<times> real \<times> real \<times> real) list" where
  "fields_of res = map (\<lambda>(k, m). (k, metric_fields m)) res"

text \<open>
  The trades of one label, and the bucket the aggregation owes them: none for no trade,
  their metrics otherwise.
\<close>

definition trend_trades :: "tagged_trade list \<Rightarrow> TrendRegime \<Rightarrow> tagged_trade list" where
  "trend_trades twr tr = filter (\<lambda>t. trend (regime t) = Some (trend_value tr)) twr"

definition vol_trades :: "tagged_trade list \<Rightarrow> VolatilityRegime \<Rightarrow> tagged_trade list" where
  "vol_trades twr v = filter (\<lambda>t. volatility (regime t) = Some (vol_value v)) twr"

definition bucket ::
  "(series \<Rightarrow> real) \<Rightarrow> real \<Rightarrow> tagged_trade list \<Rightarrow> RegimeMetrics option" where
  "bucket std c data = (if data = [] then None else Some (regime_metrics std c data))"

text \<open>A table without rows; a table that has the named columns.\<close>

definition empty_frame :: "frame \<Rightarrow> bool" where
  "empty_frame f = (index f = [] \<and> list_all (\<lambda>c. snd c = []) (columns f))"

definition has_columns :: "price_data \<Rightarrow> string list \<Rightarrow> bool" where
  "has_columns d ks = list_all (\<lambda>k. map_of (columns d) k \<noteq> None) ks"

text \<open>
  The trend rule in the words of the specification: \<open>above_long\<close> is
  \<^verbatim>\<open>close > ma_long\<close>, \<open>rising_short\<close> is \<^verbatim>\<open>ma_short\<close> above its value one row
  earlier, false on the first row; a comparison with a missing value is false. Both hold:
  UPTREND; neither holds: DOWNTREND; exactly one holds: SIDEWAYS.
\<close>

definition above_long :: "series \<Rightarrow> series \<Rightarrow> nat \<Rightarrow> bool" where
  "above_long cl ma_l i =
     (case (cl ! i, ma_l ! i) of (Some c, Some m) \<Rightarrow> c > m | _ \<Rightarrow> False)"

definition rising_short :: "series \<Rightarrow> nat \<Rightarrow> bool" where
  "rising_short ma_s i =
     (if i = 0 then False
      else case (ma_s ! i, ma_s ! (i - 1)) of (Some a, Some b) \<Rightarrow> a > b | _ \<Rightarrow> False)"

definition spec_trend :: "bool \<Rightarrow> bool \<Rightarrow> TrendRegime" where
  "spec_trend a r =
     (if a \<and> r then UPTREND else if \<not> a \<and> \<not> r then DOWNTREND else SIDEWAYS)"

text \<open>
  The volatility label of a day from its ATR and the two percentiles, the HIGH test
  first.
\<close>

definition volatility_label :: "real option \<Rightarrow> real option \<Rightarrow> real option \<Rightarrow> VolatilityRegime" where
  "volatility_label x q33 q67 = (if ge x q67 then HIGH else if le x q33 then LOW else MEDIUM)"

text \<open>
  The Sharpe estimator in the words of the specification: the percentage return of a
  trade, the daily returns (per distinct entry date, in date order, the sum of the
  percentage returns of its trades), and the mean of a list.
\<close>

definition spec_return_pct :: "real \<Rightarrow> tagged_trade \<Rightarrow> real" where
  "spec_return_pct c t = pnl (src_trade t) / c * 100"

definition spec_daily_returns :: "real \<Rightarrow> tagged_trade list \<Rightarrow> real list" where
  "spec_daily_returns c ts =
     map (\<lambda>d. sum_list (map (spec_return_pct c) (filter (\<lambda>t. entry_date t = d) ts)))
       (sorted_list_of_set (entry_date ` set ts))"

definition spec_mean :: "real list \<Rightarrow> real" where
  "spec_mean xs = sum_list xs / real (length xs)"

text \<open>
  A price table with the \<^verbatim>\<open>date\<close> column and no missing value: its five price columns
  hold the given numbers, one per row. For such a table, the daily data in the words of the
  specification: per distinct date, in date order, the first open, the greatest high, the
  least low, the last close and the summed volume of the date's rows, with the three
  indicator columns computed from them.
\<close>

definition complete_prices ::
  "price_data \<Rightarrow> int list \<Rightarrow> real list \<Rightarrow> real list \<Rightarrow> real list \<Rightarrow> real list \<Rightarrow> real list \<Rightarrow> bool" where
  "complete_prices d ds op hi lo cl vo =
     (date d = Some ds \<and>
      getitem (columns d) ''open'' = Inr (map Some op) \<and> length op = length ds \<and>
      getitem (columns d) ''high'' = Inr (map Some hi) \<and> length hi = length ds \<and>
      getitem (columns d) ''low'' = Inr (map Some lo) \<and> length lo = length ds \<and>
      getitem (columns d) ''close'' = Inr (map Some cl) \<and> length cl = length ds \<and>
      getitem (columns d) ''volume'' = Inr (map Some vo) \<and> length vo = length ds)"

definition daily_of ::
  "int list \<Rightarrow> real list \<Rightarrow> real list \<Rightarrow> real list \<Rightarrow> real list \<Rightarrow> real list \<Rightarrow> frame" where
  "daily_of ds op hi lo cl vo =
     (let keys = group_keys ds;
          op' = map (\<lambda>k. Some (hd (group_of ds op k))) keys;
          hi' = map (\<lambda>k. Some (Max (set (group_of ds hi k)))) keys;
          lo' = map (\<lambda>k. Some (Min (set (group_of ds lo k)))) keys;
          cl' = map (\<lambda>k. Some (last (group_of ds cl k))) keys;
          vo' = map (\<lambda>k. Some (sum_list (group_of ds vo k))) keys
      in \<lparr>index = keys,
          columns = [(''open'', op'), (''high'', hi'), (''low'', lo'), (''close'', cl'),
                     (''volume'', vo'),
                     (''ma_short'', ewm_mean short_ma cl'),
                     (''ma_long'', ewm_mean long_ma cl'),
                     (''atr'', ewm_mean vol_window (true_range hi' lo' cl'))]\<rparr>)"

text \<open>
  The daily table of a price table with missing values, in the words of the
  specification. The cells of a column on the rows of one date, in row order; the
  observed ones among them, the missing cells left out; and the value of a date: none for
  a date without an observed cell, and otherwise what \<open>F\<close> makes of its observed cells
  (their first, their greatest, their least, their last).
\<close>

definition day_cells :: "int list \<Rightarrow> 'a list \<Rightarrow> int \<Rightarrow> 'a list" where
  "day_cells ds xs k = map (\<lambda>i. xs ! i) (filter (\<lambda>i. ds ! i = k) [0..<length ds])"

definition observed :: "'a option list \<Rightarrow> 'a list" where
  "observed cs = map the (filter (\<lambda>c. c \<noteq> None) cs)"

definition day_value :: "(real list \<Rightarrow> real) \<Rightarrow> int list \<Rightarrow> series \<Rightarrow> int \<Rightarrow> real option" where
  "day_value F ds xs k =
     (if observed (day_cells ds xs k) = [] then None
      else Some (F (observed (day_cells ds xs k))))"

text \<open>
  The value carried forward to a date: the value of the latest date present, not later
  than it, that has one; none when no such date exists.
\<close>

definition carried :: "(int \<Rightarrow> real option) \<Rightarrow> int list \<Rightarrow> int \<Rightarrow> real option" where
  "carried f ds k =
     (let have = filter (\<lambda>k'. k' \<le> k \<and> f k' \<noteq> None) (sort (remdups ds))
      in if have = [] then None else f (last have))"

text \<open>
  The five daily values of a date: the open, high, low and close are carried forward, the
  volume is the sum of the observed volumes of the date itself (0 when none is observed).
  A date is complete when its open, high, low and close all have a value.
\<close>

definition daily_open :: "int list \<Rightarrow> series \<Rightarrow> int \<Rightarrow> real option" where
  "daily_open ds op = carried (day_value hd ds op) ds"

definition daily_high :: "int list \<Rightarrow> series \<Rightarrow> int \<Rightarrow> real option" where
  "daily_high ds hi = carried (day_value (\<lambda>vs. Max (set vs)) ds hi) ds"

definition daily_low :: "int list \<Rightarrow> series \<Rightarrow> int \<Rightarrow> real option" where
  "daily_low ds lo = carried (day_value (\<lambda>vs. Min (set vs)) ds lo) ds"

definition daily_close :: "int list \<Rightarrow> series \<Rightarrow> int \<Rightarrow> real option" where
  "daily_close ds cl = carried (day_value last ds cl) ds"

definition daily_volume :: "int list \<Rightarrow> series \<Rightarrow> int \<Rightarrow> real option" where
  "daily_volume ds vo k = Some (sum_list (observed (day_cells ds vo k)))"

definition complete_day :: "int list \<Rightarrow> series \<Rightarrow> series \<Rightarrow> series \<Rightarrow> series \<Rightarrow> int \<Rightarrow> bool" where
  "complete_day ds op hi lo cl k =
     (daily_open ds op k \<noteq> None \<and> daily_high ds hi k \<noteq> None \<and>
      daily_low ds lo k \<noteq> None \<and> daily_close ds cl k \<noteq> None)"

text \<open>
  A price table with the \<^verbatim>\<open>date\<close> column whose five price columns are the given ones,
  one cell per row, missing or not.
\<close>

definition price_table ::
  "price_data \<Rightarrow> int list \<Rightarrow> series \<Rightarrow> series \<Rightarrow> series \<Rightarrow> series \<Rightarrow> series \<Rightarrow> bool" where
  "price_table d ds op hi lo cl vo =
     (date d = Some ds \<and>
      getitem (columns d) ''open'' = Inr op \<and> length op = length ds \<and>
      getitem (columns d) ''high'' = Inr hi \<and> length hi = length ds \<and>
      getitem (columns d) ''low'' = Inr lo \<and> length lo = length ds \<and>
      getitem (columns d) ''close'' = Inr cl \<and> length cl = length ds \<and>
      getitem (columns d) ''volume'' = Inr vo \<and> length vo = length ds)"

section \<open>Example inputs\<close>

text \<open>
  One function the parameter \<open>std\<close> can be: the sample standard deviation over the reals.
  The examples with fewer than twenty trades never call it.
\<close>

definition exact_std :: "series \<Rightarrow> real" where
  "exact_std s =
     sqrt (sum_list (map (\<lambda>x. (x - mean s)\<^sup>2) (valid s)) / real (length (valid s) - 1))"

text \<open>
  A calendar with the single day 5, and two trades: one entered on day 5, one on day 0,
  which the calendar does not have.
\<close>

definition ex_regimes :: regimes where
  "ex_regimes = [(5, \<lparr>trend = Some ''uptrend'', volatility = Some ''low'', atr = Some 1\<rparr>)]"

definition ex_trades :: "trade list" where
  "ex_trades = [\<lparr>entry_time = 432000000000007, pnl = 10\<rparr>, \<lparr>entry_time = 3, pnl = - 10\<rparr>]"

text \<open>
  Price tables without rows: with the \<^verbatim>\<open>date\<close> column, and without it. The daily data
  of the first.
\<close>

definition empty_prices :: price_data where
  "empty_prices = \<lparr>index = [], columns = [(''open'', []), (''high'', []), (''low'', []),
      (''close'', []), (''volume'', [])], date = Some []\<rparr>"

definition empty_no_date :: price_data where
  "empty_no_date = \<lparr>index = [], columns = [(''open'', []), (''high'', []), (''low'', []),
      (''close'', []), (''volume'', [])], date = None\<rparr>"

definition empty_daily :: frame where
  "empty_daily = \<lparr>index = [], columns = [(''open'', []), (''high'', []), (''low'', []),
      (''close'', []), (''volume'', []), (''ma_short'', []), (''ma_long'', []), (''atr'', [])]\<rparr>"

text \<open>
  Intraday bars of four days (two bars on day 6) with the daily data and the calendar the
  module derives from them; two days of a flat price; and a daily price table without the
  \<^verbatim>\<open>date\<close> column.
\<close>

definition ex_prices :: price_data where
  "ex_prices = \<lparr>index = [0, 1, 2, 3, 4],
     columns = [(''open'', [Some 3, Some 4, Some 5, Some 8, Some 6]),
                (''high'', [Some 4, Some 6, Some 8, Some 8, Some 6]),
                (''low'', [Some 3, Some 4, Some 5, Some 6, Some 2]),
                (''close'', [Some 4, Some 5, Some 8, Some (121 / 20), Some 2]),
                (''volume'', [Some 10, Some 20, Some 30, Some 40, Some 50])],
     date = Some [5, 6, 6, 7, 8]\<rparr>"

definition ex_daily :: frame where
  "ex_daily = \<lparr>index = [5, 6, 7, 8],
     columns =
       [(''open'', [Some 3, Some 4, Some 8, Some 6]),
        (''high'', [Some 4, Some 8, Some 8, Some 6]),
        (''low'', [Some 3, Some 4, Some 6, Some 2]),
        (''close'', [Some 4, Some 8, Some (121 / 20), Some 2]),
        (''volume'', [Some 10, Some 50, Some 40, Some 50]),
        (''ma_short'', [Some 4, Some (61 / 10), Some (146081 / 24020), Some (3145979 / 641600)]),
        (''ma_long'', [Some 4, Some (601 / 100), Some (14456441 / 2400020),
                       Some (3201655799 / 640016000)]),
        (''atr'', [Some 1, Some (18 / 7), Some (782 / 331), Some (264211 / 92820)])]\<rparr>"

definition ex_calendar :: regimes where
  "ex_calendar =
     [(5, \<lparr>trend = Some ''downtrend'', volatility = Some ''low'', atr = Some 1\<rparr>),
      (6, \<lparr>trend = Some ''uptrend'', volatility = Some ''medium'', atr = Some (18 / 7)\<rparr>),
      (7, \<lparr>trend = Some ''sideways'', volatility = Some ''medium'', atr = Some (782 / 331)\<rparr>),
      (8, \<lparr>trend = Some ''downtrend'', volatility = Some ''high'',
           atr = Some (264211 / 92820)\<rparr>)]"

definition flat_two_days :: price_data where
  "flat_two_days = \<lparr>index = [0, 1],
     columns = [(''open'', [Some 1, Some 1]), (''high'', [Some 1, Some 1]), (''low'', [Some 1, Some 1]),
                (''close'', [Some 1, Some 1]), (''volume'', [Some 1, Some 1])],
     date = Some [5, 6]\<rparr>"

definition no_date_prices :: price_data where
  "no_date_prices = \<lparr>index = [5, 6],
     columns = [(''open'', [Some 1, Some 2]), (''high'', [Some 3, Some 4]), (''low'', [Some 1, Some 1]),
                (''close'', [Some 2, Some 3]), (''volume'', [Some 1, Some 1])],
     date = None\<rparr>"

text \<open>
  Twenty trades of one regime, entered at nine o'clock on the twenty days 0 to 19, each
  with a profit of 100: with a capital of 100000 every daily return is a tenth of a
  percent. A routine that returns on every column what the library's returns on these
  twenty daily returns, about \<open>1.4238e-17\<close>.
\<close>

definition mk_trade :: "int \<Rightarrow> real \<Rightarrow> tagged_trade" where
  "mk_trade d p =
     \<lparr>src_trade = \<lparr>entry_time = d * 86400000000000 + 32400000000000, pnl = p\<rparr>,
      return_pct = p / 100000 * 100,
      regime = \<lparr>trend = Some ''uptrend'', volatility = Some ''low'', atr = Some 1\<rparr>\<rparr>"

definition constant_trades :: "tagged_trade list" where
  "constant_trades =
     [mk_trade 0 100, mk_trade 1 100, mk_trade 2 100, mk_trade 3 100, mk_trade 4 100,
      mk_trade 5 100, mk_trade 6 100, mk_trade 7 100, mk_trade 8 100, mk_trade 9 100,
      mk_trade 10 100, mk_trade 11 100, mk_trade 12 100, mk_trade 13 100, mk_trade 14
      100, mk_trade 15 100, mk_trade 16 100, mk_trade 17 100, mk_trade 18 100,
      mk_trade 19 100]"

definition constant_returns :: "real list" where
  "constant_returns = replicate 20 (1 / 10)"

definition rounded_std :: "series \<Rightarrow> real" where
  "rounded_std s = 14238 / 10 ^ 21"

text \<open>Two days of bars, the open of the first day missing.\<close>

definition nan_open_prices :: price_data where
  "nan_open_prices = \<lparr>index = [0, 1],
     columns = [(''open'', [None, Some 2]), (''high'', [Some 2, Some 3]),
                (''low'', [Some 1, Some 2]), (''close'', [Some 2, Some 3]),
                (''volume'', [Some 10, Some 20])],
     date = Some [5, 6]\<rparr>"

text \<open>
  A price table without the \<^verbatim>\<open>date\<close> column that carries the indicator columns and
  has the row label 5 twice, and the calendar the module computes from it.
\<close>

definition dup_label_prices :: price_data where
  "dup_label_prices = \<lparr>index = [5, 5],
     columns = [(''close'', [Some 2, Some 3]), (''ma_short'', [Some 2, Some (5 / 2)]),
                (''ma_long'', [Some 2, Some (5 / 2)]), (''atr'', [Some 1, Some 2])],
     date = None\<rparr>"

definition dup_calendar :: regimes where
  "dup_calendar =
     [(5, \<lparr>trend = Some ''downtrend'', volatility = Some ''low'', atr = Some 1\<rparr>),
      (5, \<lparr>trend = Some ''uptrend'', volatility = Some ''high'', atr = Some 2\<rparr>)]"

text \<open>
  Four bars on the dates 5, 6, 6 and 7 with gaps: no open is observed on date 5; on date 6
  the first open, the last close and one volume are missing; on date 7 the open, the
  close and the volume are missing. The daily data the module computes from them.
\<close>

definition gappy_prices :: price_data where
  "gappy_prices = \<lparr>index = [0, 1, 2, 3],
     columns = [(''open'', [None, None, Some 4, None]),
                (''high'', [Some 4, Some 6, Some 8, Some 9]),
                (''low'', [Some 3, Some 4, Some 5, Some 7]),
                (''close'', [Some 4, Some 5, None, None]),
                (''volume'', [Some 10, None, Some 30, None])],
     date = Some [5, 6, 6, 7]\<rparr>"

definition gappy_daily :: frame where
  "gappy_daily = \<lparr>index = [6, 7],
     columns =
       [(''open'', [Some 4, Some 4]),
        (''high'', [Some 8, Some 9]),
        (''low'', [Some 4, Some 7]),
        (''close'', [Some 5, Some 5]),
        (''volume'', [Some 30, Some 0]),
        (''ma_short'', [Some (181 / 40), Some (5644 / 1201)]),
        (''ma_long'', [Some (1801 / 400), Some (560404 / 120001)]),
        (''atr'', [Some (18 / 7), Some (1024 / 331)])]\<rparr>"

section \<open>The role of the initial capital\<close>

lemma merge_piece_core:
  assumes "core x = core y"
  shows "map core (case filter (\<lambda>r. fst r = entry_date x) rs of
                         [] \<Rightarrow> [x\<lparr>regime := \<lparr>trend = None, volatility = None, atr = None\<rparr>\<rparr>]
                       | m # ms \<Rightarrow> map (\<lambda>r. x\<lparr>regime := snd r\<rparr>) (m # ms))
       = map core (case filter (\<lambda>r. fst r = entry_date y) rs of
                         [] \<Rightarrow> [y\<lparr>regime := \<lparr>trend = None, volatility = None, atr = None\<rparr>\<rparr>]
                       | m # ms \<Rightarrow> map (\<lambda>r. y\<lparr>regime := snd r\<rparr>) (m # ms))"
proof -
  from assms have e: "entry_date x = entry_date y" and s: "src_trade x = src_trade y"
    by (simp_all add: core_def entry_date_def)
  show ?thesis unfolding e using s by (cases "filter (\<lambda>r. fst r = entry_date y) rs") (simp_all add: core_def)
qed

lemma merge_left_core:
  "map core xs = map core ys \<Longrightarrow> map core (merge_left xs rs) = map core (merge_left ys rs)"
proof (induction xs arbitrary: ys)
  case Nil
  then show ?case by (simp add: merge_left_def)
next
  case (Cons x xs)
  then obtain y ys' where ys: "ys = y # ys'" by auto
  with Cons.prems have h: "core x = core y" and t: "map core xs = map core ys'" by auto
  have ih: "map core (merge_left xs rs) = map core (merge_left ys' rs)" using Cons.IH[OF t] .
  have ml: "\<And>z zs. merge_left (z # zs) rs = (case filter (\<lambda>r. fst r = entry_date z) rs of
                         [] \<Rightarrow> [z\<lparr>regime := \<lparr>trend = None, volatility = None, atr = None\<rparr>\<rparr>]
                       | m # ms \<Rightarrow> map (\<lambda>r. z\<lparr>regime := snd r\<rparr>) (m # ms)) @ merge_left zs rs"
    by (simp add: merge_left_def)
  show ?case unfolding ys ml map_append ih merge_piece_core[OF h] ..
qed

lemma fill_unclassified_core:
  "core x = core y \<Longrightarrow> core (fill_unclassified x) = core (fill_unclassified y)"
  by (simp add: core_def fill_unclassified_def)

lemma map_fill_core:
  "map core xs = map core ys \<Longrightarrow> map core (map fill_unclassified xs) = map core (map fill_unclassified ys)"
proof (induction xs arbitrary: ys)
  case Nil then show ?case by simp
next
  case (Cons x xs)
  then obtain y ys' where ys: "ys = y # ys'" by auto
  with Cons.prems have h: "core x = core y" and t: "map core xs = map core ys'" by auto
  show ?case unfolding ys using fill_unclassified_core[OF h] Cons.IH[OF t] by simp
qed

lemma filter_core:
  assumes "map core xs = map core ys"
  shows "map core (filter (\<lambda>t. P (core t)) xs) = map core (filter (\<lambda>t. P (core t)) ys)"
proof -
  have "map core (filter (\<lambda>t. P (core t)) xs) = filter P (map core xs)" by (simp add: filter_map comp_def)
  also have "\<dots> = filter P (map core ys)" using assms by simp
  also have "\<dots> = map core (filter (\<lambda>t. P (core t)) ys)" by (simp add: filter_map comp_def)
  finally show ?thesis .
qed

lemma regime_metrics_core:
  assumes "map core xs = map core ys"
  shows "metric_fields (regime_metrics std c1 xs) = metric_fields (regime_metrics std c2 ys)"
proof -
  have l: "length xs = length ys" using assms by (metis length_map)
  have p: "map (\<lambda>t. pnl (src_trade t)) xs = map (\<lambda>t. pnl (src_trade t)) ys"
  proof -
    have "map (\<lambda>t. pnl (src_trade t)) xs = map (\<lambda>p. pnl (fst p)) (map core xs)" by (simp add: core_def comp_def)
    also have "\<dots> = map (\<lambda>t. pnl (src_trade t)) ys" unfolding assms by (simp add: core_def comp_def)
    finally show ?thesis .
  qed
  have w: "length (filter (\<lambda>t. pnl (src_trade t) > 0) xs) = length (filter (\<lambda>t. pnl (src_trade t) > 0) ys)"
  proof -
    have "length (filter (\<lambda>t. pnl (src_trade t) > 0) xs) = length (filter (\<lambda>v. v > 0) (map (\<lambda>t. pnl (src_trade t)) xs))"
      by (simp add: filter_map comp_def)
    also have "\<dots> = length (filter (\<lambda>t. pnl (src_trade t) > 0) ys)" unfolding p by (simp add: filter_map comp_def)
    finally show ?thesis .
  qed
  have s: "map (\<lambda>t. Some (pnl (src_trade t))) xs = map (\<lambda>t. Some (pnl (src_trade t))) ys"
  proof -
    have "map (\<lambda>t. Some (pnl (src_trade t))) xs = map Some (map (\<lambda>t. pnl (src_trade t)) xs)" by (simp add: comp_def)
    also have "\<dots> = map (\<lambda>t. Some (pnl (src_trade t))) ys" unfolding p by (simp add: comp_def)
    finally show ?thesis .
  qed
  show ?thesis by (simp add: metric_fields_def regime_metrics_def l p w s)
qed

lemma update_fields:
  "map (\<lambda>(k, m). (k, metric_fields m)) r1 = map (\<lambda>(k, m). (k, metric_fields m)) r2 \<Longrightarrow> metric_fields v1 = metric_fields v2 \<Longrightarrow>
   map (\<lambda>(k, m). (k, metric_fields m)) (AList.update k v1 r1) = map (\<lambda>(k, m). (k, metric_fields m)) (AList.update k v2 r2)"
proof (induction r1 arbitrary: r2)
  case Nil then show ?case by simp
next
  case (Cons a r1)
  then obtain b r2' where r2: "r2 = b # r2'" by auto
  with Cons show ?case by (auto split: prod.splits)
qed


lemma update_fields_of:
  "fields_of r1 = fields_of r2 \<Longrightarrow> metric_fields v1 = metric_fields v2 \<Longrightarrow>
   fields_of (AList.update k v1 r1) = fields_of (AList.update k v2 r2)"
  unfolding fields_of_def by (rule update_fields)

lemma add_trend_bucket_fields:
  assumes "map core t1 = map core t2" and "fields_of r1 = fields_of r2"
  shows "fields_of (add_trend_bucket std c1 t1 tr r1) = fields_of (add_trend_bucket std c2 t2 tr r2)"
proof -
  let ?P = "\<lambda>p. trend (snd p) = Some (trend_value tr)"
  have e: "(\<lambda>t. trend (regime t) = Some (trend_value tr)) = (\<lambda>t. ?P (core t))"
    by (simp add: core_def)
  have f: "map core (filter (\<lambda>t. trend (regime t) = Some (trend_value tr)) t1)
         = map core (filter (\<lambda>t. trend (regime t) = Some (trend_value tr)) t2)"
    unfolding e by (rule filter_core[OF assms(1)])
  then have l: "length (filter (\<lambda>t. trend (regime t) = Some (trend_value tr)) t1)
         = length (filter (\<lambda>t. trend (regime t) = Some (trend_value tr)) t2)"
    by (metis length_map)
  show ?thesis
    unfolding add_trend_bucket_def Let_def l
    using update_fields_of[OF assms(2) regime_metrics_core[OF f]] assms(2) by simp
qed

lemma add_vol_bucket_fields:
  assumes "map core t1 = map core t2" and "fields_of r1 = fields_of r2"
  shows "fields_of (add_vol_bucket std c1 t1 v r1) = fields_of (add_vol_bucket std c2 t2 v r2)"
proof -
  let ?P = "\<lambda>p. volatility (snd p) = Some (vol_value v)"
  have e: "(\<lambda>t. volatility (regime t) = Some (vol_value v)) = (\<lambda>t. ?P (core t))"
    by (simp add: core_def)
  have f: "map core (filter (\<lambda>t. volatility (regime t) = Some (vol_value v)) t1)
         = map core (filter (\<lambda>t. volatility (regime t) = Some (vol_value v)) t2)"
    unfolding e by (rule filter_core[OF assms(1)])
  then have l: "length (filter (\<lambda>t. volatility (regime t) = Some (vol_value v)) t1)
         = length (filter (\<lambda>t. volatility (regime t) = Some (vol_value v)) t2)"
    by (metis length_map)
  show ?thesis
    unfolding add_vol_bucket_def Let_def l
    using update_fields_of[OF assms(2) regime_metrics_core[OF f]] assms(2) by simp
qed

lemma fold_trend_fields:
  assumes "map core t1 = map core t2"
  shows "fields_of r1 = fields_of r2 \<Longrightarrow>
     fields_of (fold (add_trend_bucket std c1 t1) trs r1) = fields_of (fold (add_trend_bucket std c2 t2) trs r2)"
proof (induction trs arbitrary: r1 r2)
  case Nil then show ?case by simp
next
  case (Cons tr trs)
  show ?case using Cons.IH[OF add_trend_bucket_fields[OF assms Cons.prems]] by simp
qed

lemma fold_vol_fields:
  assumes "map core t1 = map core t2"
  shows "fields_of r1 = fields_of r2 \<Longrightarrow>
     fields_of (fold (add_vol_bucket std c1 t1) vs r1) = fields_of (fold (add_vol_bucket std c2 t2) vs r2)"
proof (induction vs arbitrary: r1 r2)
  case Nil then show ?case by simp
next
  case (Cons v vs)
  show ?case using Cons.IH[OF add_vol_bucket_fields[OF assms Cons.prems]] by simp
qed

lemma tagged_core:
  "map core (snd (analyze_performance std c1 rs ts)) = map core (snd (analyze_performance std c2 rs ts))"
proof -
  have "map core (map (\<lambda>t. \<lparr>src_trade = t, return_pct = pnl t / c1 * 100,
                       regime = \<lparr>trend = None, volatility = None, atr = None\<rparr>\<rparr>) ts)
      = map core (map (\<lambda>t. \<lparr>src_trade = t, return_pct = pnl t / c2 * 100,
                       regime = \<lparr>trend = None, volatility = None, atr = None\<rparr>\<rparr>) ts)"
    by (simp add: core_def)
  from map_fill_core[OF merge_left_core[OF this]]
  show ?thesis by (simp add: analyze_performance_def Let_def)
qed

text \<open>
  Claim C7. For every trade log, every regime calendar and any two values of
  \<^verbatim>\<open>initial_capital\<close>, the two metrics mappings returned by \<^verbatim>\<open>analyze_performance\<close>
  have the same keys in the same order, and bucket by bucket the same \<^verbatim>\<open>n_trades\<close>,
  \<^verbatim>\<open>win_rate\<close>, \<^verbatim>\<open>avg_pnl\<close> and \<^verbatim>\<open>total_pnl\<close>: the capital reaches only
  \<^verbatim>\<open>return_pct\<close> and through it the Sharpe ratio.
\<close>

theorem metrics_independent_of_initial_capital:
  "fields_of (fst (analyze_performance std c1 rs ts)) = fields_of (fst (analyze_performance std c2 rs ts))"
proof -
  have r: "fst (analyze_performance std c rs ts) =
      fold (add_vol_bucket std c (snd (analyze_performance std c rs ts))) all_VolatilityRegime
        (fold (add_trend_bucket std c (snd (analyze_performance std c rs ts))) all_TrendRegime [])" for c
    by (simp add: analyze_performance_def Let_def)
  have "fields_of ([] :: (string \<times> RegimeMetrics) list) = fields_of []" by simp
  from fold_vol_fields[OF tagged_core fold_trend_fields[OF tagged_core this]]
  show ?thesis unfolding r .
qed

lemma ex_fields_50:
  "fields_of (fst (analyze_performance exact_std 50 ex_regimes ex_trades)) =
     [(''uptrend_regime'', 1, 1, 10, 10), (''unclassified_regime'', 1, 0, - 10, - 10),
      (''low_vol'', 1, 1, 10, 10)]"
  by (simp add: analyze_performance_def ex_regimes_def ex_trades_def merge_left_def
      entry_date_def dt_date_def fill_unclassified_def fillna_def all_TrendRegime_def
      all_VolatilityRegime_def add_trend_bucket_def add_vol_bucket_def regime_metrics_def
      fields_of_def metric_fields_def mean_def calculate_regime_sharpe_def)

theorem metrics_independent_of_initial_capital_witness:
  "fields_of (fst (analyze_performance exact_std 100000 ex_regimes ex_trades)) =
     [(''uptrend_regime'', 1, 1, 10, 10), (''unclassified_regime'', 1, 0, - 10, - 10),
      (''low_vol'', 1, 1, 10, 10)]"
  using metrics_independent_of_initial_capital [of exact_std 100000 ex_regimes ex_trades 50] ex_fields_50
  by simp

section \<open>The buckets of the metrics mapping\<close>

lemma add_trend_bucket_map_of:
  "map_of (add_trend_bucket std c twr tr r) =
     (if trend_trades twr tr = [] then map_of r
      else (map_of r)(trend_value tr @ ''_regime'' \<mapsto> regime_metrics std c (trend_trades twr tr)))"
  by (simp add: add_trend_bucket_def trend_trades_def update_conv')

lemma add_vol_bucket_map_of:
  "map_of (add_vol_bucket std c twr v r) =
     (if vol_trades twr v = [] then map_of r
      else (map_of r)(vol_value v @ ''_vol'' \<mapsto> regime_metrics std c (vol_trades twr v)))"
  by (simp add: add_vol_bucket_def vol_trades_def update_conv')

lemma results_unfold:
  "fst (analyze_performance std c rs ts) =
      fold (add_vol_bucket std c (snd (analyze_performance std c rs ts))) all_VolatilityRegime
        (fold (add_trend_bucket std c (snd (analyze_performance std c rs ts))) all_TrendRegime [])"
  by (simp add: analyze_performance_def Let_def)

lemma map_of_results_trend:
  "map_of (fst (analyze_performance std c rs ts)) (trend_value tr @ ''_regime'')
     = bucket std c (trend_trades (snd (analyze_performance std c rs ts)) tr)"
  unfolding results_unfold all_VolatilityRegime_def all_TrendRegime_def
  by (cases tr) (simp_all add: add_trend_bucket_map_of add_vol_bucket_map_of bucket_def)

lemma map_of_results_vol:
  "map_of (fst (analyze_performance std c rs ts)) (vol_value v @ ''_vol'')
     = bucket std c (vol_trades (snd (analyze_performance std c rs ts)) v)"
  unfolding results_unfold all_VolatilityRegime_def all_TrendRegime_def
  by (cases v) (simp_all add: add_trend_bucket_map_of add_vol_bucket_map_of bucket_def)

lemma add_trend_bucket_keys:
  "fst ` set (add_trend_bucket std c twr tr r) =
     (if trend_trades twr tr = [] then {} else {trend_value tr @ ''_regime''}) \<union> fst ` set r"
  by (simp add: add_trend_bucket_def trend_trades_def dom_update)

lemma add_vol_bucket_keys:
  "fst ` set (add_vol_bucket std c twr v r) =
     (if vol_trades twr v = [] then {} else {vol_value v @ ''_vol''}) \<union> fst ` set r"
  by (simp add: add_vol_bucket_def vol_trades_def dom_update)

lemma fold_trend_keys:
  "fst ` set (fold (add_trend_bucket std c twr) trs r) =
     fst ` set r \<union> {trend_value tr @ ''_regime'' | tr. tr \<in> set trs \<and> trend_trades twr tr \<noteq> []}"
proof (induction trs arbitrary: r)
  case Nil then show ?case by simp
next
  case (Cons a trs)
  show ?case unfolding fold_Cons comp_def Cons.IH add_trend_bucket_keys by auto
qed

lemma fold_vol_keys:
  "fst ` set (fold (add_vol_bucket std c twr) vs r) =
     fst ` set r \<union> {vol_value v @ ''_vol'' | v. v \<in> set vs \<and> vol_trades twr v \<noteq> []}"
proof (induction vs arbitrary: r)
  case Nil then show ?case by simp
next
  case (Cons a vs)
  show ?case unfolding fold_Cons comp_def Cons.IH add_vol_bucket_keys by auto
qed

lemma all_TrendRegime_set: "tr \<in> set all_TrendRegime"
  by (cases tr) (simp_all add: all_TrendRegime_def)

lemma all_VolatilityRegime_set: "v \<in> set all_VolatilityRegime"
  by (cases v) (simp_all add: all_VolatilityRegime_def)

lemma results_keys:
  "fst ` set (fst (analyze_performance std c rs ts)) =
     {trend_value tr @ ''_regime'' | tr. trend_trades (snd (analyze_performance std c rs ts)) tr \<noteq> []} \<union>
     {vol_value v @ ''_vol'' | v. vol_trades (snd (analyze_performance std c rs ts)) v \<noteq> []}"
  unfolding results_unfold fold_vol_keys fold_trend_keys
  by (simp add: all_TrendRegime_set all_VolatilityRegime_set)

lemma trend_key_inj: "trend_value a @ ''_regime'' = trend_value b @ ''_regime'' \<Longrightarrow> a = b"
  by (cases a; cases b) simp_all

lemma vol_key_inj: "vol_value a @ ''_vol'' = vol_value b @ ''_vol'' \<Longrightarrow> a = b"
  by (cases a; cases b) simp_all

lemma trend_key_not_vol: "trend_value a @ ''_regime'' \<noteq> vol_value b @ ''_vol''"
  by (cases a; cases b) simp_all

lemma trend_key_present:
  "trend_value tr @ ''_regime'' \<in> fst ` set (fst (analyze_performance std c rs ts))
     \<longleftrightarrow> trend_trades (snd (analyze_performance std c rs ts)) tr \<noteq> []"
  unfolding results_keys using trend_key_inj trend_key_not_vol by auto

lemma vol_key_present:
  "vol_value v @ ''_vol'' \<in> fst ` set (fst (analyze_performance std c rs ts))
     \<longleftrightarrow> vol_trades (snd (analyze_performance std c rs ts)) v \<noteq> []"
  unfolding results_keys using vol_key_inj trend_key_not_vol by (auto; metis)

lemma set_update_cases: "p \<in> set (AList.update k v al) \<Longrightarrow> p = (k, v) \<or> p \<in> set al"
  by (induction al) (auto split: if_splits)

lemma add_trend_bucket_pos:
  assumes "p \<in> set (add_trend_bucket std c twr tr r)" and "\<And>q. q \<in> set r \<Longrightarrow> 0 < n_trades (snd q)"
  shows "0 < n_trades (snd p)"
proof (cases "trend_trades twr tr = []")
  case True
  then show ?thesis using assms by (simp add: add_trend_bucket_def trend_trades_def)
next
  case False
  then have "p = (trend_value tr @ ''_regime'', regime_metrics std c (trend_trades twr tr)) \<or> p \<in> set r"
    using assms(1) set_update_cases by (fastforce simp: add_trend_bucket_def trend_trades_def)
  then show ?thesis
  proof
    assume "p = (trend_value tr @ ''_regime'', regime_metrics std c (trend_trades twr tr))"
    then show ?thesis using False by (simp add: regime_metrics_def)
  next
    assume "p \<in> set r" then show ?thesis by (rule assms(2))
  qed
qed

lemma add_vol_bucket_pos:
  assumes "p \<in> set (add_vol_bucket std c twr v r)" and "\<And>q. q \<in> set r \<Longrightarrow> 0 < n_trades (snd q)"
  shows "0 < n_trades (snd p)"
proof (cases "vol_trades twr v = []")
  case True
  then show ?thesis using assms by (simp add: add_vol_bucket_def vol_trades_def)
next
  case False
  then have "p = (vol_value v @ ''_vol'', regime_metrics std c (vol_trades twr v)) \<or> p \<in> set r"
    using assms(1) set_update_cases by (fastforce simp: add_vol_bucket_def vol_trades_def)
  then show ?thesis
  proof
    assume "p = (vol_value v @ ''_vol'', regime_metrics std c (vol_trades twr v))"
    then show ?thesis using False by (simp add: regime_metrics_def)
  next
    assume "p \<in> set r" then show ?thesis by (rule assms(2))
  qed
qed

lemma fold_trend_pos:
  "(\<And>q. q \<in> set r \<Longrightarrow> 0 < n_trades (snd q)) \<Longrightarrow> p \<in> set (fold (add_trend_bucket std c twr) trs r)
    \<Longrightarrow> 0 < n_trades (snd p)"
proof (induction trs arbitrary: r)
  case Nil then show ?case by simp
next
  case (Cons a trs)
  show ?case
  proof (rule Cons.IH)
    show "p \<in> set (fold (add_trend_bucket std c twr) trs (add_trend_bucket std c twr a r))"
      using Cons.prems(2) by simp
    show "\<And>q. q \<in> set (add_trend_bucket std c twr a r) \<Longrightarrow> 0 < n_trades (snd q)"
      using add_trend_bucket_pos Cons.prems(1) by blast
  qed
qed

lemma fold_vol_pos:
  "(\<And>q. q \<in> set r \<Longrightarrow> 0 < n_trades (snd q)) \<Longrightarrow> p \<in> set (fold (add_vol_bucket std c twr) vs r)
    \<Longrightarrow> 0 < n_trades (snd p)"
proof (induction vs arbitrary: r)
  case Nil then show ?case by simp
next
  case (Cons a vs)
  show ?case
  proof (rule Cons.IH)
    show "p \<in> set (fold (add_vol_bucket std c twr) vs (add_vol_bucket std c twr a r))"
      using Cons.prems(2) by simp
    show "\<And>q. q \<in> set (add_vol_bucket std c twr a r) \<Longrightarrow> 0 < n_trades (snd q)"
      using add_vol_bucket_pos Cons.prems(1) by blast
  qed
qed

lemma results_pos:
  assumes "p \<in> set (fst (analyze_performance std c rs ts))"
  shows "0 < n_trades (snd p)"
proof -
  have "\<And>q. q \<in> set (fold (add_trend_bucket std c (snd (analyze_performance std c rs ts))) all_TrendRegime [])
     \<Longrightarrow> 0 < n_trades (snd q)"
    by (rule fold_trend_pos[where r="[]"]) simp_all
  then show ?thesis using assms fold_vol_pos unfolding results_unfold by blast
qed

text \<open>
  Claim C1 says that the mapping never has a bucket keyed by an unclassified label. The
  trend loop runs over all four members of \<^verbatim>\<open>TrendRegime\<close>, \<^verbatim>\<open>UNCLASSIFIED\<close> among
  them: of the two example trades the one entered on a day without calendar row gets the
  bucket \<^verbatim>\<open>unclassified_regime\<close>.
\<close>

theorem unclassified_bucket_counterexample:
  "map (\<lambda>(k, m). (k, n_trades m)) (fst (analyze_performance exact_std 100000 ex_regimes ex_trades)) =
     [(''uptrend_regime'', 1), (''unclassified_regime'', 1), (''low_vol'', 1)]"
  by (simp add: analyze_performance_def ex_regimes_def ex_trades_def merge_left_def
      entry_date_def dt_date_def fill_unclassified_def fillna_def all_TrendRegime_def
      all_VolatilityRegime_def add_trend_bucket_def add_vol_bucket_def regime_metrics_def)

text \<open>
  Claim C1, amended. The mapping never has the key \<^verbatim>\<open>unclassified_vol\<close>: the volatility
  loop runs over HIGH, MEDIUM and LOW only. It has the key \<^verbatim>\<open>unclassified_regime\<close>
  exactly when some trade carries the UNCLASSIFIED trend sentinel, and the bucket then
  holds the metrics of those trades.
\<close>

theorem unclassified_buckets:
  "''unclassified_vol'' \<notin> fst ` set (fst (analyze_performance std c rs ts)) \<and>
   (''unclassified_regime'' \<in> fst ` set (fst (analyze_performance std c rs ts)) \<longleftrightarrow>
      (\<exists>t \<in> set (snd (analyze_performance std c rs ts)). trend (regime t) = Some ''unclassified'')) \<and>
   map_of (fst (analyze_performance std c rs ts)) ''unclassified_regime'' =
     bucket std c (trend_trades (snd (analyze_performance std c rs ts)) UNCLASSIFIED)"
proof -
  have a: "''unclassified_vol'' \<noteq> trend_value tr @ ''_regime''" for tr by (cases tr) simp_all
  have b: "''unclassified_vol'' \<noteq> vol_value v @ ''_vol''" for v by (cases v) simp_all
  have 1: "''unclassified_vol'' \<notin> fst ` set (fst (analyze_performance std c rs ts))"
    unfolding results_keys using a b by auto
  have 2: "''unclassified_regime'' \<in> fst ` set (fst (analyze_performance std c rs ts)) \<longleftrightarrow>
      (\<exists>t \<in> set (snd (analyze_performance std c rs ts)). trend (regime t) = Some ''unclassified'')"
    using trend_key_present[of UNCLASSIFIED std c rs ts]
    by (auto simp: trend_trades_def filter_empty_conv)
  have 3: "map_of (fst (analyze_performance std c rs ts)) ''unclassified_regime'' =
     bucket std c (trend_trades (snd (analyze_performance std c rs ts)) UNCLASSIFIED)"
    using map_of_results_trend[of std c rs ts UNCLASSIFIED] by simp
  from 1 2 3 show ?thesis by simp
qed

lemma ex_tagged_trends:
  "map (\<lambda>t. trend (regime t)) (snd (analyze_performance exact_std 100000 ex_regimes ex_trades)) =
     [Some ''uptrend'', Some ''unclassified'']"
  by (simp add: analyze_performance_def Let_def ex_regimes_def ex_trades_def merge_left_def
      entry_date_def dt_date_def fill_unclassified_def fillna_def)

theorem unclassified_buckets_witness:
  "''unclassified_vol'' \<notin> fst ` set (fst (analyze_performance exact_std 100000 ex_regimes ex_trades)) \<and>
   ''unclassified_regime'' \<in> fst ` set (fst (analyze_performance exact_std 100000 ex_regimes ex_trades))"
proof -
  have "Some ''unclassified'' \<in> set (map (\<lambda>t. trend (regime t))
          (snd (analyze_performance exact_std 100000 ex_regimes ex_trades)))"
    unfolding ex_tagged_trends by simp
  then have "\<exists>t \<in> set (snd (analyze_performance exact_std 100000 ex_regimes ex_trades)).
      trend (regime t) = Some ''unclassified''"
    by auto
  with unclassified_buckets[of exact_std 100000 ex_regimes ex_trades] show ?thesis by simp
qed

section \<open>Empty inputs\<close>

lemma getitem_present: "map_of cs k \<noteq> None \<Longrightarrow> \<exists>s. getitem cs k = Inr s"
  by (auto simp: getitem_def)

lemma daily_frame_empty: "dropna (daily_frame [] op hi lo cl vo) = empty_daily"
  by (simp add: daily_frame_def dropna_def group_keys_def groupby_def ffill_def ewm_mean_def
      true_range_def shift1_def take_rows_def empty_daily_def)

lemma prepare_empty:
  assumes "date d = Some []"
    and "map_of (columns d) ''open'' \<noteq> None" and "map_of (columns d) ''high'' \<noteq> None"
    and "map_of (columns d) ''low'' \<noteq> None" and "map_of (columns d) ''close'' \<noteq> None"
    and "map_of (columns d) ''volume'' \<noteq> None"
  shows "prepare_daily_data d = Inr empty_daily"
proof -
  from assms(2-6) obtain op hi lo cl vo where
    "getitem (columns d) ''open'' = Inr op" "getitem (columns d) ''high'' = Inr hi"
    "getitem (columns d) ''low'' = Inr lo" "getitem (columns d) ''close'' = Inr cl"
    "getitem (columns d) ''volume'' = Inr vo"
    using getitem_present by metis
  then show ?thesis using assms(1) by (simp add: prepare_daily_data_def daily_frame_empty)
qed

lemma classify_empty: "classify_regimes empty_daily = Inr []"
  by (simp add: classify_regimes_def empty_daily_def getitem_def)

lemma analyze_no_trades: "analyze_performance std c rs [] = ([], [])"
  by (simp add: analyze_performance_def merge_left_def all_TrendRegime_def all_VolatilityRegime_def
      add_trend_bucket_def add_vol_bucket_def)

lemma empty_daily_empty: "empty_frame empty_daily"
  by (simp add: empty_frame_def empty_daily_def)

lemma map_of_map_snd: "map_of (map (\<lambda>c. (fst c, g (snd c))) cs) k = map_option g (map_of cs k)"
  by (induction cs) auto

lemma dropna_no_rows:
  assumes "index f = []"
  shows "dropna f = \<lparr>index = [], columns = map (\<lambda>c. (fst c, [])) (columns f)\<rparr>"
  using assms by (simp add: dropna_def take_rows_def)

lemma passthrough_empty:
  assumes "date d = None" and "index d = []"
    and "map_of (columns d) ''close'' \<noteq> None" and "map_of (columns d) ''ma_long'' \<noteq> None"
    and "map_of (columns d) ''ma_short'' \<noteq> None" and "map_of (columns d) ''atr'' \<noteq> None"
  shows "\<exists>dd. prepare_daily_data d = Inr dd \<and> empty_frame dd \<and> classify_regimes dd = Inr []"
proof -
  let ?dd = "\<lparr>index = [], columns = map (\<lambda>c. (fst c, [])) (columns d)\<rparr> :: frame"
  have p: "prepare_daily_data d = Inr ?dd"
    using assms(1,2) by (simp add: prepare_daily_data_def dropna_no_rows)
  have e: "empty_frame ?dd" by (simp add: empty_frame_def list_all_iff)
  have g: "map_of (columns d) k \<noteq> None \<Longrightarrow> getitem (columns ?dd) k = Inr []" for k
    by (auto simp: getitem_def map_of_map_snd[where g="\<lambda>_. []"])
  have "classify_regimes ?dd = Inr []"
    using g[OF assms(3)] g[OF assms(4)] g[OF assms(5)] g[OF assms(6)]
    by (simp add: classify_regimes_def)
  with p e show ?thesis by blast
qed

lemma with_date_empty:
  assumes "date d = Some []"
    and "map_of (columns d) ''open'' \<noteq> None" and "map_of (columns d) ''high'' \<noteq> None"
    and "map_of (columns d) ''low'' \<noteq> None" and "map_of (columns d) ''close'' \<noteq> None"
    and "map_of (columns d) ''volume'' \<noteq> None"
  shows "\<exists>dd. prepare_daily_data d = Inr dd \<and> empty_frame dd \<and> classify_regimes dd = Inr []"
  using prepare_empty[OF assms] empty_daily_empty classify_empty by blast

text \<open>
  Claim C8 says that an empty price series yields an empty regime calendar without
  raising. A price table without rows and without the \<^verbatim>\<open>date\<close> column is passed
  through as it is, so the classifier finds no \<^verbatim>\<open>ma_long\<close> column and raises.
\<close>

theorem empty_no_date_counterexample:
  "regimes_of empty_no_date = Inl (KeyError ''ma_long'')"
  by (simp add: regimes_of_def prepare_daily_data_def empty_no_date_def dropna_def take_rows_def
      classify_regimes_def getitem_def)

text \<open>
  Claim C8, amended. A price table without rows that has the \<^verbatim>\<open>date\<close> column and the
  five price columns, or that has no \<^verbatim>\<open>date\<close> column but the four columns the
  classifier reads, yields daily data without rows and the empty calendar, without
  raising. An empty trade log yields the empty mapping and no tagged trade. For every
  input, a key of a trend or volatility label is in the mapping exactly when some trade
  carries the label, and every bucket of the mapping counts at least one trade.
\<close>

theorem empty_inputs:
  assumes "(date d = Some [] \<and> has_columns d [''open'', ''high'', ''low'', ''close'', ''volume'']) \<or>
           (date d = None \<and> index d = [] \<and> has_columns d [''close'', ''ma_long'', ''ma_short'', ''atr''])"
  shows "(\<exists>dd. prepare_daily_data d = Inr dd \<and> empty_frame dd) \<and> regimes_of d = Inr [] \<and>
         analyze_performance std c rs [] = ([], []) \<and>
         (\<forall>tr. trend_value tr @ ''_regime'' \<in> fst ` set (fst (analyze_performance std c rs ts)) \<longleftrightarrow>
               (\<exists>t \<in> set (snd (analyze_performance std c rs ts)). trend (regime t) = Some (trend_value tr))) \<and>
         (\<forall>v. vol_value v @ ''_vol'' \<in> fst ` set (fst (analyze_performance std c rs ts)) \<longleftrightarrow>
               (\<exists>t \<in> set (snd (analyze_performance std c rs ts)). volatility (regime t) = Some (vol_value v))) \<and>
         (\<forall>p \<in> set (fst (analyze_performance std c rs ts)). 0 < n_trades (snd p))"
proof -
  have "\<exists>dd. prepare_daily_data d = Inr dd \<and> empty_frame dd \<and> classify_regimes dd = Inr []"
    using assms
  proof
    assume "date d = Some [] \<and> has_columns d [''open'', ''high'', ''low'', ''close'', ''volume'']"
    then show ?thesis using with_date_empty by (simp add: has_columns_def)
  next
    assume "date d = None \<and> index d = [] \<and> has_columns d [''close'', ''ma_long'', ''ma_short'', ''atr'']"
    then show ?thesis using passthrough_empty by (simp add: has_columns_def)
  qed
  then obtain dd where dd: "prepare_daily_data d = Inr dd" "empty_frame dd" "classify_regimes dd = Inr []"
    by blast
  then have 1: "(\<exists>dd. prepare_daily_data d = Inr dd \<and> empty_frame dd) \<and> regimes_of d = Inr []"
    by (auto simp: regimes_of_def)
  have ne: "xs \<noteq> [] \<longleftrightarrow> (\<exists>x \<in> set xs. True)" for xs :: "tagged_trade list"
    by (cases xs) auto
  have 3: "trend_value tr @ ''_regime'' \<in> fst ` set (fst (analyze_performance std c rs ts)) \<longleftrightarrow>
               (\<exists>t \<in> set (snd (analyze_performance std c rs ts)). trend (regime t) = Some (trend_value tr))" for tr
    unfolding trend_key_present trend_trades_def by (auto simp: filter_empty_conv)
  have 4: "vol_value v @ ''_vol'' \<in> fst ` set (fst (analyze_performance std c rs ts)) \<longleftrightarrow>
               (\<exists>t \<in> set (snd (analyze_performance std c rs ts)). volatility (regime t) = Some (vol_value v))" for v
    unfolding vol_key_present vol_trades_def by (auto simp: filter_empty_conv)
  have 5: "\<forall>p \<in> set (fst (analyze_performance std c rs ts)). 0 < n_trades (snd p)"
    using results_pos by blast
  show ?thesis using 1 analyze_no_trades[of std c rs] 3 4 5 by simp
qed

lemma ex_keys:
  "map fst (fst (analyze_performance exact_std 100000 ex_regimes ex_trades)) =
     [''uptrend_regime'', ''unclassified_regime'', ''low_vol'']"
  by (simp add: analyze_performance_def ex_regimes_def ex_trades_def merge_left_def
      entry_date_def dt_date_def fill_unclassified_def fillna_def all_TrendRegime_def
      all_VolatilityRegime_def add_trend_bucket_def add_vol_bucket_def)

theorem empty_inputs_witness:
  "(\<exists>dd. prepare_daily_data empty_prices = Inr dd \<and> empty_frame dd) \<and>
   regimes_of empty_prices = Inr [] \<and>
   analyze_performance exact_std 100000 ex_regimes [] = ([], []) \<and>
   ''uptrend_regime'' \<in> fst ` set (fst (analyze_performance exact_std 100000 ex_regimes ex_trades)) \<and>
   ''downtrend_regime'' \<notin> fst ` set (fst (analyze_performance exact_std 100000 ex_regimes ex_trades))"
proof -
  have h: "(date empty_prices = Some [] \<and>
            has_columns empty_prices [''open'', ''high'', ''low'', ''close'', ''volume'']) \<or>
           (date empty_prices = None \<and> index empty_prices = [] \<and>
            has_columns empty_prices [''close'', ''ma_long'', ''ma_short'', ''atr''])"
    by (simp add: empty_prices_def has_columns_def)
  have k: "fst ` set (fst (analyze_performance exact_std 100000 ex_regimes ex_trades)) =
      {''uptrend_regime'', ''unclassified_regime'', ''low_vol''}"
  proof -
    have "set (map fst (fst (analyze_performance exact_std 100000 ex_regimes ex_trades))) =
        set [''uptrend_regime'', ''unclassified_regime'', ''low_vol'']"
      unfolding ex_keys ..
    then show ?thesis by simp
  qed
  from empty_inputs[OF h, of exact_std 100000 ex_regimes ex_trades] show ?thesis unfolding k by simp
qed

section \<open>The classifier\<close>

lemma length_assign_mask [simp]: "length (assign_mask s m l) = min (length s) (length m)"
  by (simp add: assign_mask_def)

lemma nth_assign_mask:
  "i < length s \<Longrightarrow> i < length m \<Longrightarrow> assign_mask s m l ! i = (if m ! i then Some l else s ! i)"
  by (simp add: assign_mask_def)

lemma length_shift1 [simp]: "length (shift1 xs) = length xs"
  by (cases xs) (simp_all add: shift1_def)

lemma nth_shift1:
  assumes i: "i < length xs"
  shows "shift1 xs ! i = (if i = 0 then None else xs ! (i - 1))"
proof (cases xs)
  case Nil
  then show ?thesis using i by simp
next
  case (Cons a list)
  have s: "shift1 xs = None # butlast xs" using Cons by (simp add: shift1_def)
  show ?thesis
  proof (cases i)
    case 0
    then show ?thesis using s by simp
  next
    case (Suc n)
    then have "n < length (butlast xs)" using i by simp
    then have "butlast xs ! n = xs ! n" by (rule nth_butlast)
    then show ?thesis using s Suc by simp
  qed
qed

lemma length_classify_trend:
  "length (classify_trend cl ma_l ma_s) = min (length cl) (min (length ma_l) (length ma_s))"
  by (simp add: classify_trend_def Let_def isna_def)

lemma gt_above: "gt (cl ! i) (ma_l ! i) = above_long cl ma_l i"
  by (simp add: gt_def above_long_def)

lemma gt_rising: "i < length ma_s \<Longrightarrow> gt (ma_s ! i) (shift1 ma_s ! i) = rising_short ma_s i"
  by (simp add: gt_def rising_short_def nth_shift1 split: option.splits)

lemma nth_classify_trend:
  assumes "i < length cl" "i < length ma_l" "i < length ma_s"
  shows "classify_trend cl ma_l ma_s ! i =
     Some (trend_value (spec_trend (above_long cl ma_l i) (rising_short ma_s i)))"
proof -
  have r: "gt (ma_s ! i) (shift1 ma_s ! i) = rising_short ma_s i"
    using assms(3) by (rule gt_rising)
  have a: "gt (cl ! i) (ma_l ! i) = above_long cl ma_l i" by (rule gt_above)
  have "classify_trend cl ma_l ma_s ! i =
     Some (trend_value (spec_trend (gt (cl ! i) (ma_l ! i)) (gt (ma_s ! i) (shift1 ma_s ! i))))"
    using assms
    by (simp add: classify_trend_def Let_def isna_def nth_assign_mask spec_trend_def)
  then show ?thesis unfolding r a .
qed

lemma length_classify_volatility: "length (classify_volatility a) = length a"
  by (simp add: classify_volatility_def Let_def isna_def)

lemma nth_classify_volatility:
  assumes "i < length a"
  shows "classify_volatility a ! i =
     Some (vol_value (volatility_label (a ! i) (quantile a (33 / 100)) (quantile a (67 / 100))))"
  using assms
  by (simp add: classify_volatility_def Let_def isna_def nth_assign_mask volatility_label_def)

lemma classify_regimes_Inr:
  assumes "classify_regimes dd = Inr rs"
  obtains cl ma_l ma_s a where
    "getitem (columns dd) ''close'' = Inr cl" "getitem (columns dd) ''ma_long'' = Inr ma_l"
    "getitem (columns dd) ''ma_short'' = Inr ma_s" "getitem (columns dd) ''atr'' = Inr a"
    "rs = zip (index dd)
              (map (\<lambda>(t, v, x). \<lparr>trend = t, volatility = v, atr = x\<rparr>)
                 (zip (classify_trend cl ma_l ma_s) (zip (classify_volatility a) a)))"
  using assms by (auto simp: classify_regimes_def split: sum.splits)

lemma ex_prepare: "prepare_daily_data ex_prices = Inr ex_daily"
  by (simp add: prepare_daily_data_def ex_prices_def ex_daily_def getitem_def daily_frame_def group_keys_def
      groupby_def group_of_def agg_first_def agg_last_def agg_max_def agg_min_def agg_sum_def
      ffill_def ewm_mean_def true_range_def shift1_def sub_def abs_cell_def fillna_def
      dropna_def Let_def row_complete_def take_rows_def short_ma_def long_ma_def vol_window_def
      del: not_None_eq)

lemma ex_classify: "classify_regimes ex_daily = Inr ex_calendar"
  by (simp add: classify_regimes_def ex_daily_def ex_calendar_def getitem_def classify_trend_def
      classify_volatility_def quantile_def Let_def assign_mask_def isna_def gt_def le_def ge_def
      shift1_def)

lemma flat_daily:
  "prepare_daily_data flat_two_days = Inr \<lparr>index = [5, 6],
     columns = [(''open'', [Some 1, Some 1]), (''high'', [Some 1, Some 1]), (''low'', [Some 1, Some 1]),
                (''close'', [Some 1, Some 1]), (''volume'', [Some 1, Some 1]),
                (''ma_short'', [Some 1, Some 1]), (''ma_long'', [Some 1, Some 1]),
                (''atr'', [Some 0, Some 0])]\<rparr>"
  by (simp add: prepare_daily_data_def flat_two_days_def getitem_def daily_frame_def group_keys_def
      groupby_def group_of_def agg_first_def agg_last_def agg_max_def agg_min_def agg_sum_def
      ffill_def ewm_mean_def true_range_def shift1_def sub_def abs_cell_def fillna_def
      dropna_def Let_def row_complete_def take_rows_def short_ma_def long_ma_def vol_window_def)

lemma dropna_columns_None:
  "map_of (columns (dropna f)) k = None \<longleftrightarrow> map_of (columns f) k = None"
  by (simp add: dropna_def Let_def map_of_map_snd)

text \<open>
  Claim C5. On every row of the regime calendar the trend label is the one the rule of
  the specification gives: UPTREND when the close is above the long average and the short
  average has risen, DOWNTREND when neither holds, SIDEWAYS when exactly one holds; on the
  first row the short average has not risen, and a comparison with a missing value is
  false.
\<close>

theorem trend_rule:
  assumes "classify_regimes dd = Inr rs" and "i < length rs"
    and "getitem (columns dd) ''close'' = Inr cl"
    and "getitem (columns dd) ''ma_long'' = Inr ma_l"
    and "getitem (columns dd) ''ma_short'' = Inr ma_s"
  shows "trend (snd (rs ! i)) =
     Some (trend_value (spec_trend (above_long cl ma_l i) (rising_short ma_s i)))"
proof -
  from assms(1) obtain a where
    rs: "rs = zip (index dd)
              (map (\<lambda>(t, v, x). \<lparr>trend = t, volatility = v, atr = x\<rparr>)
                 (zip (classify_trend cl ma_l ma_s) (zip (classify_volatility a) a)))"
    using assms(3-5) by (auto elim!: classify_regimes_Inr)
  from assms(2) have i: "i < length (classify_trend cl ma_l ma_s)" "i < length (index dd)"
     "i < length a" "i < length (classify_volatility a)"
    unfolding rs by simp_all
  then have l: "i < length cl" "i < length ma_l" "i < length ma_s"
    by (simp_all add: length_classify_trend)
  have "trend (snd (rs ! i)) = classify_trend cl ma_l ma_s ! i"
    unfolding rs using i by simp
  then show ?thesis using nth_classify_trend[OF l] by simp
qed

theorem trend_rule_witness:
  "classify_regimes ex_daily = Inr ex_calendar \<and>
   map (\<lambda>i. trend (snd (ex_calendar ! i))) [0, 1, 2, 3] =
     [Some (trend_value (spec_trend False False)), Some (trend_value (spec_trend True True)),
      Some (trend_value (spec_trend True False)), Some (trend_value (spec_trend False False))]"
proof -
  let ?cl = "[Some 4, Some 8, Some (121 / 20), Some 2] :: series"
  let ?ml = "[Some 4, Some (601 / 100), Some (14456441 / 2400020),
              Some (3201655799 / 640016000)] :: series"
  let ?ms = "[Some 4, Some (61 / 10), Some (146081 / 24020), Some (3145979 / 641600)] :: series"
  have c: "getitem (columns ex_daily) ''close'' = Inr ?cl"
    and l: "getitem (columns ex_daily) ''ma_long'' = Inr ?ml"
    and s: "getitem (columns ex_daily) ''ma_short'' = Inr ?ms"
    by (simp_all add: ex_daily_def getitem_def)
  have n: "0 < length ex_calendar" "1 < length ex_calendar" "2 < length ex_calendar"
    "3 < length ex_calendar"
    by (simp_all add: ex_calendar_def)
  have a: "\<not> above_long ?cl ?ml 0" "above_long ?cl ?ml 1" "above_long ?cl ?ml 2"
    "\<not> above_long ?cl ?ml 3"
    by (simp_all add: above_long_def)
  have r: "\<not> rising_short ?ms 0" "rising_short ?ms 1" "\<not> rising_short ?ms 2"
    "\<not> rising_short ?ms 3"
    by (simp_all add: rising_short_def)
  show ?thesis
    using trend_rule [OF ex_classify n(1) c l s] trend_rule [OF ex_classify n(2) c l s]
      trend_rule [OF ex_classify n(3) c l s] trend_rule [OF ex_classify n(4) c l s]
      ex_classify a r
    by simp
qed

text \<open>
  Claim C2 says that a day whose ATR is at most the 33rd percentile is labelled LOW, also
  when it passes the test for HIGH. On two days of a flat price every ATR is 0 and so are
  both percentiles: both days pass both tests, and both are labelled HIGH, since the
  assignment of HIGH comes after the assignment of LOW and overwrites it.
\<close>

theorem volatility_tie_counterexample:
  "regimes_of flat_two_days =
     Inr [(5, \<lparr>trend = Some ''downtrend'', volatility = Some ''high'', atr = Some 0\<rparr>),
          (6, \<lparr>trend = Some ''downtrend'', volatility = Some ''high'', atr = Some 0\<rparr>)] \<and>
   quantile [Some 0, Some 0] (33 / 100) = Some 0 \<and>
   quantile [Some 0, Some 0] (67 / 100) = Some 0"
  by (simp add: regimes_of_def flat_daily classify_regimes_def getitem_def classify_trend_def
      classify_volatility_def quantile_def Let_def assign_mask_def isna_def gt_def le_def ge_def
      shift1_def)

text \<open>
  Claim C2, amended. On every row of the regime calendar the volatility label is HIGH when
  the ATR is at least the 67th percentile of the ATR column, otherwise LOW when it is at
  most the 33rd percentile, otherwise MEDIUM: on a tie HIGH wins.
\<close>

theorem volatility_rule:
  assumes "classify_regimes dd = Inr rs" and "i < length rs"
    and "getitem (columns dd) ''atr'' = Inr a"
  shows "volatility (snd (rs ! i)) =
     Some (vol_value (volatility_label (a ! i) (quantile a (33 / 100)) (quantile a (67 / 100))))"
proof -
  from assms(1) obtain cl ma_l ma_s where
    rs: "rs = zip (index dd)
              (map (\<lambda>(t, v, x). \<lparr>trend = t, volatility = v, atr = x\<rparr>)
                 (zip (classify_trend cl ma_l ma_s) (zip (classify_volatility a) a)))"
    using assms(3) by (auto elim!: classify_regimes_Inr)
  from assms(2) have i: "i < length (classify_trend cl ma_l ma_s)" "i < length (index dd)"
     "i < length a" "i < length (classify_volatility a)"
    unfolding rs by simp_all
  have "volatility (snd (rs ! i)) = classify_volatility a ! i"
    unfolding rs using i by simp
  then show ?thesis using nth_classify_volatility[OF i(3)] by simp
qed

theorem volatility_rule_witness:
  "classify_regimes ex_daily = Inr ex_calendar \<and>
   map (\<lambda>i. volatility (snd (ex_calendar ! i))) [0, 1, 2, 3] =
     [Some (vol_value LOW), Some (vol_value MEDIUM), Some (vol_value MEDIUM),
      Some (vol_value HIGH)]"
proof -
  let ?a = "[Some 1, Some (18 / 7), Some (782 / 331), Some (264211 / 92820)] :: series"
  have a: "getitem (columns ex_daily) ''atr'' = Inr ?a"
    by (simp add: ex_daily_def getitem_def)
  have n: "0 < length ex_calendar" "1 < length ex_calendar" "2 < length ex_calendar"
    "3 < length ex_calendar"
    by (simp_all add: ex_calendar_def)
  have q: "quantile ?a (33 / 100) = Some (77749 / 33100)" "quantile ?a (67 / 100) = Some (23893531 / 9282000)"
    by (simp_all add: quantile_def Let_def)
  have v: "volatility_label (?a ! 0) (Some (77749 / 33100)) (Some (23893531 / 9282000)) = LOW"
    "volatility_label (?a ! 1) (Some (77749 / 33100)) (Some (23893531 / 9282000)) = MEDIUM"
    "volatility_label (?a ! 2) (Some (77749 / 33100)) (Some (23893531 / 9282000)) = MEDIUM"
    "volatility_label (?a ! 3) (Some (77749 / 33100)) (Some (23893531 / 9282000)) = HIGH"
    by (simp_all add: volatility_label_def le_def ge_def)
  show ?thesis
    using volatility_rule [OF ex_classify n(1) a] volatility_rule [OF ex_classify n(2) a]
      volatility_rule [OF ex_classify n(3) a] volatility_rule [OF ex_classify n(4) a]
      ex_classify
    unfolding q v by simp
qed

text \<open>
  Claim C10. A price table without the \<^verbatim>\<open>date\<close> column is passed through with its
  incomplete rows dropped and no indicator computed; when it has none of the columns
  \<^verbatim>\<open>ma_short\<close>, \<^verbatim>\<open>ma_long\<close> and \<^verbatim>\<open>atr\<close>, the classifier raises \<^verbatim>\<open>KeyError\<close>: for
  \<^verbatim>\<open>close\<close> when that column is absent too, for \<^verbatim>\<open>ma_long\<close> otherwise.
\<close>

theorem no_date_no_indicators_raises:
  assumes "date d = None" and "map_of (columns d) ''ma_short'' = None"
    and "map_of (columns d) ''ma_long'' = None" and "map_of (columns d) ''atr'' = None"
  shows "prepare_daily_data d = Inr (dropna \<lparr>index = index d, columns = columns d\<rparr>) \<and>
         regimes_of d =
           Inl (KeyError (if map_of (columns d) ''close'' = None then ''close'' else ''ma_long''))"
proof -
  let ?dd = "dropna \<lparr>index = index d, columns = columns d\<rparr>"
  have p: "prepare_daily_data d = Inr ?dd" using assms(1) by (simp add: prepare_daily_data_def)
  have m: "map_of (columns ?dd) ''ma_long'' = None"
    using assms(3) by (simp add: dropna_columns_None)
  have c: "map_of (columns ?dd) ''close'' = None \<longleftrightarrow> map_of (columns d) ''close'' = None"
    by (simp add: dropna_columns_None)
  have "classify_regimes ?dd =
           Inl (KeyError (if map_of (columns d) ''close'' = None then ''close'' else ''ma_long''))"
    using m c by (auto simp: classify_regimes_def getitem_def split: option.splits)
  with p show ?thesis by (simp add: regimes_of_def)
qed

theorem no_date_no_indicators_raises_witness:
  "regimes_of no_date_prices = Inl (KeyError ''ma_long'')"
  using no_date_no_indicators_raises[of no_date_prices] by (simp add: no_date_prices_def)

section \<open>The trade attribution join\<close>

lemma distinct_group_keys: "distinct (group_keys ks)"
  by (simp add: group_keys_def)

lemma set_group_keys: "set (group_keys ks) = set ks"
  by (simp add: group_keys_def)

lemma sorted_group_keys: "sorted (group_keys ks)"
  by (simp add: group_keys_def)

lemma distinct_take_rows:
  assumes "distinct xs" and "distinct keep" and "\<forall>i \<in> set keep. i < length xs"
  shows "distinct (take_rows keep xs)"
proof -
  have "inj_on ((!) xs) (set keep)"
    using assms(1,3) by (auto simp: inj_on_def nth_eq_iff_index_eq)
  then show ?thesis using assms(2) by (simp add: take_rows_def distinct_map)
qed

lemma distinct_index_dropna:
  assumes "distinct (index f)"
  shows "distinct (index (dropna f))"
  by (simp add: dropna_def Let_def distinct_take_rows[OF assms])

lemma index_daily_frame: "index (daily_frame ds op hi lo cl vo) = group_keys ds"
  by (simp add: daily_frame_def Let_def)

lemma prepare_distinct:
  assumes "prepare_daily_data d = Inr dd" and "date d = None \<longrightarrow> distinct (index d)"
  shows "distinct (index dd)"
proof (cases "date d")
  case None
  then have "dd = dropna \<lparr>index = index d, columns = columns d\<rparr>"
    using assms(1) by (simp add: prepare_daily_data_def)
  then show ?thesis using assms(2) None by (simp add: distinct_index_dropna)
next
  case (Some ds)
  then obtain op hi lo cl vo where "dd = dropna (daily_frame ds op hi lo cl vo)"
    using assms(1) by (auto simp: prepare_daily_data_def split: sum.splits)
  then show ?thesis by (simp add: distinct_index_dropna index_daily_frame distinct_group_keys)
qed

lemma classify_distinct:
  assumes "classify_regimes dd = Inr rs" and "distinct (index dd)"
  shows "distinct (map fst rs)"
  using assms by (auto simp: classify_regimes_def map_fst_zip_take split: sum.splits)

lemma regimes_of_distinct:
  assumes "regimes_of d = Inr rs" and "date d = None \<longrightarrow> distinct (index d)"
  shows "distinct (map fst rs)"
proof -
  from assms(1) obtain dd where "prepare_daily_data d = Inr dd" "classify_regimes dd = Inr rs"
    by (auto simp: regimes_of_def split: sum.splits)
  then show ?thesis using prepare_distinct[OF _ assms(2)] classify_distinct by blast
qed

lemma set_assign_mask_isna:
  "x \<in> set (assign_mask s (isna s) l) \<Longrightarrow> x = Some l \<or> (x \<noteq> None \<and> x \<in> set s)"
  by (auto simp: assign_mask_def isna_def zip_map2 zip_same_conv_map split: if_splits)

lemma set_assign_mask:
  "x \<in> set (assign_mask s m l) \<Longrightarrow> x = Some l \<or> x \<in> set s"
  by (auto simp: assign_mask_def split: if_splits dest: set_zip_leftD)

lemma classify_trend_labels:
  assumes "x \<in> set (classify_trend cl ma_l ma_s)"
  shows "x = Some ''uptrend'' \<or> x = Some ''downtrend'' \<or> x = Some ''sideways''"
proof -
  from assms have "x = Some (trend_value SIDEWAYS) \<or> x = Some (trend_value DOWNTREND) \<or>
      x = Some (trend_value UPTREND) \<or> (x \<noteq> None \<and> x \<in> set (replicate (length cl) None))"
    unfolding classify_trend_def Let_def
    by (meson set_assign_mask_isna set_assign_mask)
  then show ?thesis by auto
qed

lemma classify_volatility_labels:
  assumes "x \<in> set (classify_volatility a)"
  shows "x = Some ''low'' \<or> x = Some ''medium'' \<or> x = Some ''high''"
proof -
  from assms have "x = Some (vol_value MEDIUM) \<or> x = Some (vol_value HIGH) \<or>
      x = Some (vol_value LOW) \<or> (x \<noteq> None \<and> x \<in> set (replicate (length a) None))"
    unfolding classify_volatility_def Let_def
    by (meson set_assign_mask_isna set_assign_mask)
  then show ?thesis by auto
qed

lemma calendar_labels:
  assumes "classify_regimes dd = Inr rs" and "r \<in> set rs"
  shows "(trend (snd r) = Some ''uptrend'' \<or> trend (snd r) = Some ''downtrend'' \<or>
          trend (snd r) = Some ''sideways'') \<and>
         (volatility (snd r) = Some ''low'' \<or> volatility (snd r) = Some ''medium'' \<or>
          volatility (snd r) = Some ''high'')"
proof -
  from assms(1) obtain cl ma_l ma_s a where
    rs: "rs = zip (index dd)
              (map (\<lambda>(t, v, x). \<lparr>trend = t, volatility = v, atr = x\<rparr>)
                 (zip (classify_trend cl ma_l ma_s) (zip (classify_volatility a) a)))"
    by (rule classify_regimes_Inr)
  from assms(2) have "snd r \<in> set (map (\<lambda>(t, v, x). \<lparr>trend = t, volatility = v, atr = x\<rparr>)
                 (zip (classify_trend cl ma_l ma_s) (zip (classify_volatility a) a)))"
    unfolding rs by (metis set_zip_rightD prod.collapse)
  then obtain t v x where r: "snd r = \<lparr>trend = t, volatility = v, atr = x\<rparr>"
    and z: "(t, v, x) \<in> set (zip (classify_trend cl ma_l ma_s) (zip (classify_volatility a) a))"
    by auto
  from z have "t \<in> set (classify_trend cl ma_l ma_s)" by (rule set_zip_leftD)
  moreover from z have "(v, x) \<in> set (zip (classify_volatility a) a)" by (rule set_zip_rightD)
  then have "v \<in> set (classify_volatility a)" by (rule set_zip_leftD)
  ultimately show ?thesis
    using classify_trend_labels classify_volatility_labels unfolding r by simp
qed

lemma filter_key_distinct:
  assumes "distinct (map fst rs)"
  shows "filter (\<lambda>r. fst r = k) rs = (case map_of rs k of None \<Rightarrow> [] | Some v \<Rightarrow> [(k, v)])"
  using assms
proof (induction rs)
  case Nil
  then show ?case by simp
next
  case (Cons r rs)
  obtain k' v' where r: "r = (k', v')" by (cases r)
  show ?case
  proof (cases "k' = k")
    case True
    then have "k \<notin> fst ` set rs" using Cons.prems r by auto
    then have "filter (\<lambda>r. fst r = k) rs = []" by (auto simp: filter_empty_conv)
    then show ?thesis using True r by simp
  next
    case False
    then show ?thesis using Cons r by simp
  qed
qed

lemma merge_left_distinct:
  assumes "distinct (map fst rs)"
  shows "merge_left ts rs =
     map (\<lambda>t. t\<lparr>regime := (case map_of rs (entry_date t) of
                  None \<Rightarrow> \<lparr>trend = None, volatility = None, atr = None\<rparr> | Some v \<Rightarrow> v)\<rparr>) ts"
proof (induction ts)
  case Nil
  then show ?case by (simp add: merge_left_def)
next
  case (Cons t ts)
  have ml: "merge_left (t # ts) rs = (case filter (\<lambda>r. fst r = entry_date t) rs of
                         [] \<Rightarrow> [t\<lparr>regime := \<lparr>trend = None, volatility = None, atr = None\<rparr>\<rparr>]
                       | m # ms \<Rightarrow> map (\<lambda>r. t\<lparr>regime := snd r\<rparr>) (m # ms)) @ merge_left ts rs"
    by (simp add: merge_left_def)
  show ?case unfolding ml Cons.IH filter_key_distinct[OF assms]
    by (simp split: option.splits)
qed

lemma tagged_unfold:
  "snd (analyze_performance std c rs ts) =
     map fill_unclassified
       (merge_left (map (\<lambda>t. \<lparr>src_trade = t, return_pct = pnl t / c * 100,
                       regime = \<lparr>trend = None, volatility = None, atr = None\<rparr>\<rparr>) ts) rs)"
  by (simp add: analyze_performance_def Let_def)

lemma tagged_distinct:
  assumes "distinct (map fst rs)"
  shows "snd (analyze_performance std c rs ts) =
     map (\<lambda>t. fill_unclassified
            \<lparr>src_trade = t, return_pct = pnl t / c * 100,
             regime = (case map_of rs (dt_date (entry_time t)) of
                  None \<Rightarrow> \<lparr>trend = None, volatility = None, atr = None\<rparr> | Some v \<Rightarrow> v)\<rparr>) ts"
  unfolding tagged_unfold merge_left_distinct[OF assms]
  by (simp add: comp_def entry_date_def)

text \<open>
  Claim C4 says that for every regime calendar the join keeps each trade exactly once. A
  price table without the \<^verbatim>\<open>date\<close> column is passed through with its row labels; when
  a label occurs twice, so it does in the calendar, and the left merge returns a trade of
  that date once per calendar row: here one trade comes out twice.
\<close>

theorem duplicate_labels_counterexample:
  "regimes_of dup_label_prices = Inr dup_calendar \<and>
   map src_trade (snd (analyze_performance exact_std 100000 dup_calendar
       [\<lparr>entry_time = 432000000000007, pnl = 10\<rparr>])) =
     [\<lparr>entry_time = 432000000000007, pnl = 10\<rparr>, \<lparr>entry_time = 432000000000007, pnl = 10\<rparr>]"
  by (simp add: regimes_of_def prepare_daily_data_def dup_label_prices_def dup_calendar_def
      dropna_def Let_def row_complete_def take_rows_def classify_regimes_def getitem_def
      classify_trend_def classify_volatility_def quantile_def assign_mask_def isna_def gt_def
      le_def ge_def shift1_def analyze_performance_def merge_left_def entry_date_def dt_date_def
      fill_unclassified_def fillna_def del: not_None_eq)

text \<open>
  Claim C4, amended. The calendar is the one the module computes from a price table that
  has the \<^verbatim>\<open>date\<close> column or, without it, distinct row labels. Then for every trade log
  the regime-tagged output holds the input trades, each once and in their order, and a
  tagged trade carries the UNCLASSIFIED trend sentinel exactly when the calendar has no
  row for the calendar date of its \<^verbatim>\<open>entry_time\<close>, and the \<^verbatim>\<open>unclassified\<close> volatility
  sentinel exactly then too.
\<close>

theorem trade_attribution:
  assumes "regimes_of d = Inr rs" and "date d = None \<longrightarrow> distinct (index d)"
  shows "map src_trade (snd (analyze_performance std c rs ts)) = ts \<and>
         (\<forall>t \<in> set (snd (analyze_performance std c rs ts)).
            (trend (regime t) = Some (trend_value UNCLASSIFIED)
               \<longleftrightarrow> dt_date (entry_time (src_trade t)) \<notin> fst ` set rs) \<and>
            (volatility (regime t) = Some ''unclassified''
               \<longleftrightarrow> dt_date (entry_time (src_trade t)) \<notin> fst ` set rs))"
proof -
  have dist: "distinct (map fst rs)" using assms by (rule regimes_of_distinct)
  from assms(1) obtain dd where cl: "classify_regimes dd = Inr rs"
    by (auto simp: regimes_of_def split: sum.splits)
  note tw = tagged_distinct[OF dist, of std c ts]
  have 1: "map src_trade (snd (analyze_performance std c rs ts)) = ts"
    unfolding tw by (simp add: comp_def fill_unclassified_def map_idI)
  have 2: "(trend (regime t) = Some (trend_value UNCLASSIFIED)
               \<longleftrightarrow> dt_date (entry_time (src_trade t)) \<notin> fst ` set rs) \<and>
            (volatility (regime t) = Some ''unclassified''
               \<longleftrightarrow> dt_date (entry_time (src_trade t)) \<notin> fst ` set rs)"
    if "t \<in> set (snd (analyze_performance std c rs ts))" for t
  proof -
    from that obtain x where t: "t = fill_unclassified
            \<lparr>src_trade = x, return_pct = pnl x / c * 100,
             regime = (case map_of rs (dt_date (entry_time x)) of
                  None \<Rightarrow> \<lparr>trend = None, volatility = None, atr = None\<rparr> | Some v \<Rightarrow> v)\<rparr>"
      unfolding tw by auto
    have s: "src_trade t = x" unfolding t by (simp add: fill_unclassified_def)
    show ?thesis
    proof (cases "map_of rs (dt_date (entry_time x))")
      case None
      then have "dt_date (entry_time x) \<notin> fst ` set rs" by (simp add: map_of_eq_None_iff)
      then show ?thesis unfolding s unfolding t using None
        by (simp add: fill_unclassified_def fillna_def)
    next
      case (Some v)
      then have m: "(dt_date (entry_time x), v) \<in> set rs" by (rule map_of_SomeD)
      then have k: "dt_date (entry_time x) \<in> fst ` set rs" by force
      from calendar_labels[OF cl m]
      have "trend v \<noteq> None \<and> trend v \<noteq> Some ''unclassified'' \<and> volatility v \<noteq> None \<and>
            volatility v \<noteq> Some ''unclassified''"
        by auto
      then show ?thesis unfolding s unfolding t using Some k
        by (auto simp: fill_unclassified_def fillna_def)
    qed
  qed
  from 1 2 show ?thesis by blast
qed

lemma ex_regimes_of: "regimes_of ex_prices = Inr ex_calendar"
  by (simp add: regimes_of_def ex_prepare ex_classify)

lemma ex_attribution:
  "map (\<lambda>t. (trend (regime t), volatility (regime t)))
       (snd (analyze_performance exact_std 100000 ex_calendar ex_trades)) =
     [(Some ''downtrend'', Some ''low''), (Some ''unclassified'', Some ''unclassified'')]"
  by (simp add: analyze_performance_def Let_def ex_calendar_def ex_trades_def merge_left_def
      entry_date_def dt_date_def fill_unclassified_def fillna_def)

theorem trade_attribution_witness:
  "regimes_of ex_prices = Inr ex_calendar \<and>
   map src_trade (snd (analyze_performance exact_std 100000 ex_calendar ex_trades)) = ex_trades \<and>
   map (\<lambda>t. (trend (regime t), volatility (regime t)))
       (snd (analyze_performance exact_std 100000 ex_calendar ex_trades)) =
     [(Some ''downtrend'', Some ''low''), (Some ''unclassified'', Some ''unclassified'')] \<and>
   map (\<lambda>t. dt_date (entry_time t)) ex_trades = [5, 0] \<and> map fst ex_calendar = [5, 6, 7, 8]"
proof -
  have h: "date ex_prices = None \<longrightarrow> distinct (index ex_prices)"
    by (simp add: ex_prices_def)
  have e: "map (\<lambda>t. dt_date (entry_time t)) ex_trades = [5, 0]"
    by (simp add: ex_trades_def dt_date_def)
  have k: "map fst ex_calendar = [5, 6, 7, 8]" by (simp add: ex_calendar_def)
  from trade_attribution [OF ex_regimes_of h, of exact_std 100000 ex_trades] ex_regimes_of ex_attribution e k
  show ?thesis by simp
qed

section \<open>The Sharpe estimator\<close>

lemma valid_map_Some [simp]: "valid (map Some xs) = xs"
  by (induction xs) simp_all

lemma valid_map_Some_f: "valid (map (\<lambda>x. Some (f x)) xs) = map f xs"
  by (induction xs) simp_all

lemma group_of_maps:
  "group_of (map g xs) (map f xs) k = map f (filter (\<lambda>x. g x = k) xs)"
  by (induction xs) (simp_all add: group_of_def)

lemma group_keys_sorted_list: "group_keys ks = sorted_list_of_set (set ks)"
  by (simp add: group_keys_def sorted_list_of_set_sort_remdups)

lemma length_group_keys: "length (group_keys ks) = card (set ks)"
  by (simp add: group_keys_def length_remdups_card_conv)

lemma groupby_sum_maps:
  "groupby agg_sum (map g xs) (map (\<lambda>x. Some (f x)) xs) =
     map (\<lambda>k. Some (sum_list (map f (filter (\<lambda>x. g x = k) xs)))) (group_keys (map g xs))"
proof -
  have "group_of (map g xs) (map (\<lambda>x. Some (f x)) xs) k =
      map (\<lambda>x. Some (f x)) (filter (\<lambda>x. g x = k) xs)" for k
    by (rule group_of_maps)
  then show ?thesis by (simp add: groupby_def agg_sum_def valid_map_Some_f)
qed

lemma mean_Some: "mean (map Some xs) = spec_mean xs"
  by (simp add: mean_def spec_mean_def)

lemma sharpe_daily_returns:
  "groupby agg_sum
     (map entry_date (map (\<lambda>t. t\<lparr>return_pct := pnl (src_trade t) / c * 100\<rparr>) ts))
     (map (\<lambda>t. Some (return_pct t)) (map (\<lambda>t. t\<lparr>return_pct := pnl (src_trade t) / c * 100\<rparr>) ts))
   = map Some (spec_daily_returns c ts)"
proof -
  have e: "map entry_date (map (\<lambda>t. t\<lparr>return_pct := pnl (src_trade t) / c * 100\<rparr>) ts)
      = map entry_date ts"
    by (simp add: entry_date_def comp_def)
  have r: "map (\<lambda>t. Some (return_pct t)) (map (\<lambda>t. t\<lparr>return_pct := pnl (src_trade t) / c * 100\<rparr>) ts)
      = map (\<lambda>t. Some (spec_return_pct c t)) ts"
    by (simp add: spec_return_pct_def comp_def)
  show ?thesis unfolding e r groupby_sum_maps
    by (simp add: spec_daily_returns_def group_keys_sorted_list comp_def)
qed

lemma sharpe_index:
  "group_keys (map entry_date (map (\<lambda>t. t\<lparr>return_pct := pnl (src_trade t) / c * 100\<rparr>) ts))
     = sorted_list_of_set (entry_date ` set ts)"
  by (simp add: group_keys_sorted_list entry_date_def comp_def image_def)

lemma length_spec_daily_returns: "length (spec_daily_returns c ts) = card (entry_date ` set ts)"
  by (simp add: spec_daily_returns_def)

lemma calculate_regime_sharpe_cases:
  "calculate_regime_sharpe std c ts =
     (if length ts < 20 \<or> card (entry_date ` set ts) < 20 \<or>
         std (map Some (spec_daily_returns c ts)) = 0
      then None
      else Some (spec_mean (spec_daily_returns c ts) * real (card (entry_date ` set ts)) /
                 (std (map Some (spec_daily_returns c ts)) *
                  sqrt (real (card (entry_date ` set ts))))))"
proof -
  have d: "length (remdups (sorted_list_of_set (entry_date ` set ts))) = card (entry_date ` set ts)"
    by (simp add: distinct_remdups_id)
  show ?thesis
    unfolding calculate_regime_sharpe_def Let_def sharpe_daily_returns sharpe_index mean_Some d
    by (simp add: length_spec_daily_returns)
qed

lemma entry_date_mk_trade: "0 \<le> d \<Longrightarrow> entry_date (mk_trade d p) = d"
  by (simp add: entry_date_def mk_trade_def dt_date_def)

lemma constant_keys:
  "group_keys (map entry_date constant_trades) =
     [0, 1, 2, 3, 4, 5, 6, 7, 8, 9, 10, 11, 12, 13, 14, 15, 16, 17, 18, 19]"
  by (simp add: constant_trades_def entry_date_mk_trade group_keys_def)

lemma spec_return_pct_mk_trade: "spec_return_pct c (mk_trade d p) = p / c * 100"
  by (simp add: spec_return_pct_def mk_trade_def)

lemma spec_daily_returns_keys:
  "spec_daily_returns c ts =
     map (\<lambda>d. sum_list (map (spec_return_pct c) (filter (\<lambda>t. entry_date t = d) ts)))
       (group_keys (map entry_date ts))"
  by (simp add: spec_daily_returns_def group_keys_sorted_list)

lemma constant_daily_returns: "spec_daily_returns 100000 constant_trades = constant_returns"
  unfolding spec_daily_returns_keys constant_keys
  by (simp add: constant_trades_def entry_date_mk_trade spec_return_pct_mk_trade
      constant_returns_def numeral_eq_Suc)

lemma constant_mean: "spec_mean constant_returns = 1 / 10"
  by (simp add: spec_mean_def constant_returns_def sum_list_replicate)

lemma constant_days: "card (entry_date ` set constant_trades) = 20"
  using length_spec_daily_returns[of 100000 constant_trades]
  unfolding constant_daily_returns by (simp add: constant_returns_def)

text \<open>
  Claim C3 says that the estimator returns no value when the daily returns have standard
  deviation zero. The twenty example trades give on each of twenty days the same daily
  return, a tenth of a percent, so the standard deviation of their daily returns is zero.
  On them the estimator returns no value only if the library's routine returns exactly 0;
  otherwise it returns the mean times twenty, divided by what the routine returned times
  the square root of twenty. In floating point the routine returns about \<open>1.4238e-17\<close> on
  these returns, and the estimator a ratio of about \<open>3.14e16\<close>.
\<close>

theorem sharpe_constant_returns:
  "calculate_regime_sharpe std 100000 constant_trades =
     (if std (map Some constant_returns) = 0 then None
      else Some (1 / 10 * 20 / (std (map Some constant_returns) * sqrt 20)))"
proof -
  have l: "length constant_trades = 20" by (simp add: constant_trades_def)
  show ?thesis
    unfolding calculate_regime_sharpe_cases constant_daily_returns constant_mean constant_days l
    by simp
qed

theorem sharpe_constant_returns_witness:
  "set constant_returns = {1 / 10} \<and>
   calculate_regime_sharpe rounded_std 100000 constant_trades =
     Some (1 / 10 * 20 / (14238 / 10 ^ 21 * sqrt 20))"
proof -
  have "set constant_returns = {1 / 10}" by (simp add: constant_returns_def)
  then show ?thesis using sharpe_constant_returns [of rounded_std]
    by (simp add: rounded_std_def)
qed

section \<open>The daily aggregation\<close>

lemma group_of_map_Some: "group_of ks (map Some xs) k = map Some (group_of ks xs k)"
  by (simp add: group_of_def zip_map2 filter_map comp_def case_prod_beta)

lemma nth_in_group_of:
  assumes "i < length ks" and "length xs = length ks"
  shows "xs ! i \<in> set (group_of ks xs (ks ! i))"
proof -
  have "(ks ! i, xs ! i) \<in> set (zip ks xs)"
    using assms by (auto simp: set_zip)
  then have "(ks ! i, xs ! i) \<in> set (filter (\<lambda>p. fst p = ks ! i) (zip ks xs))" by simp
  then show ?thesis unfolding group_of_def by force
qed

lemma group_of_nonempty:
  assumes "k \<in> set ks" and "length xs = length ks"
  shows "group_of ks xs k \<noteq> []"
proof -
  from assms(1) obtain i where "i < length ks" "ks ! i = k" by (auto simp: in_set_conv_nth)
  then have "xs ! i \<in> set (group_of ks xs k)" using nth_in_group_of[OF _ assms(2)] by blast
  then show ?thesis by auto
qed

lemma agg_first_Some: "g \<noteq> [] \<Longrightarrow> agg_first (map Some g) = Some (hd g)"
  by (cases g) (simp_all add: agg_first_def)

lemma agg_last_Some:
  assumes "g \<noteq> []"
  shows "agg_last (map Some g) = Some (last g)"
proof -
  from assms obtain a l where r: "rev g = a # l" by (cases "rev g") auto
  have "last g = hd (rev g)" using assms by (simp add: hd_rev)
  then have "last g = a" using r by simp
  then show ?thesis unfolding agg_last_def valid_map_Some r by simp
qed

lemma agg_max_Some: "g \<noteq> [] \<Longrightarrow> agg_max (map Some g) = Some (Max (set g))"
  by (cases g) (simp_all add: agg_max_def Max.set_eq_fold del: set_simps)

lemma agg_min_Some: "g \<noteq> [] \<Longrightarrow> agg_min (map Some g) = Some (Min (set g))"
  by (cases g) (simp_all add: agg_min_def Min.set_eq_fold del: set_simps)

lemma agg_sum_Some: "agg_sum (map Some g) = Some (sum_list g)"
  by (simp add: agg_sum_def)

lemma groupby_Some:
  assumes "length xs = length ks" and "\<And>g. g \<noteq> [] \<Longrightarrow> agg (map Some g) = Some (F g)"
  shows "groupby agg ks (map Some xs) = map (\<lambda>k. Some (F (group_of ks xs k))) (group_keys ks)"
proof -
  have "agg (group_of ks (map Some xs) k) = Some (F (group_of ks xs k))"
    if "k \<in> set (group_keys ks)" for k
  proof -
    from that have "k \<in> set ks" by (simp add: set_group_keys)
    then have "group_of ks xs k \<noteq> []" using assms(1) by (rule group_of_nonempty)
    then show ?thesis unfolding group_of_map_Some by (rule assms(2))
  qed
  then show ?thesis by (simp add: groupby_def)
qed

lemma ffill_from_Some: "ffill_from p (map Some xs) = map Some xs"
  by (induction xs arbitrary: p) simp_all

lemma ffill_Some: "ffill (map Some xs) = map Some xs"
  by (simp add: ffill_def ffill_from_Some)

lemma ffill_map_Some: "ffill (map (\<lambda>k. Some (f k)) ks) = map (\<lambda>k. Some (f k)) ks"
  using ffill_Some[of "map f ks"] by (simp add: comp_def)

lemma length_ewm_from [simp]: "length (ewm_from f st xs) = length xs"
  by (induction xs arbitrary: st) simp_all

lemma length_ewm_mean [simp]: "length (ewm_mean sp xs) = length xs"
  by (cases xs) (simp_all add: ewm_mean_def)

lemma ewm_from_no_None:
  "None \<notin> set xs \<Longrightarrow> None \<notin> set (ewm_from f (Some w, ow) xs)"
proof (induction xs arbitrary: w ow)
  case Nil
  then show ?case by simp
next
  case (Cons x xs)
  then obtain v where x: "x = Some v" by (cases x) auto
  from Cons.prems have "None \<notin> set xs" by simp
  from Cons.IH[OF this] show ?case unfolding x by simp
qed

lemma ewm_mean_no_None: "None \<notin> set xs \<Longrightarrow> None \<notin> set (ewm_mean sp xs)"
proof (cases xs)
  case Nil
  then show ?thesis by (simp add: ewm_mean_def)
next
  case (Cons x rest)
  assume n: "None \<notin> set xs"
  then obtain v where x: "x = Some v" using Cons by (cases x) auto
  from n Cons have "None \<notin> set rest" by simp
  from ewm_from_no_None[OF this] show ?thesis unfolding Cons x by (simp add: ewm_mean_def)
qed

lemma ewm_mean_first: "xs \<noteq> [] \<Longrightarrow> ewm_mean sp xs ! 0 = xs ! 0"
  by (cases xs) (simp_all add: ewm_mean_def)

lemma true_range_no_None: "None \<notin> set (true_range h l c)"
  by (auto simp: true_range_def)

lemma length_true_range:
  "length (true_range h l c) = min (length h) (min (length l) (length c))"
  by (simp add: true_range_def)

lemma take_rows_all: "length xs = n \<Longrightarrow> take_rows [0..<n] xs = xs"
  by (auto simp: take_rows_def map_nth)

lemma dropna_complete:
  assumes "\<And>c. c \<in> set (columns f) \<Longrightarrow> length (snd c) = length (index f) \<and> None \<notin> set (snd c)"
  shows "dropna f = f"
proof -
  have "row_complete f i" if "i < length (index f)" for i
    unfolding row_complete_def list_all_iff
  proof
    fix c assume c: "c \<in> set (columns f)"
    then have "i < length (snd c)" "None \<notin> set (snd c)" using assms that by auto
    then show "snd c ! i \<noteq> None" by (metis nth_mem)
  qed
  then have k: "filter (row_complete f) [0..<length (index f)] = [0..<length (index f)]"
    by (simp add: filter_id_conv)
  have "map (\<lambda>c. (fst c, take_rows [0..<length (index f)] (snd c))) (columns f) = columns f"
    using assms by (simp add: take_rows_all map_idI)
  then show ?thesis unfolding dropna_def Let_def k by (simp add: take_rows_all)
qed

lemma daily_frame_complete:
  assumes "length op = length ds" "length hi = length ds" "length lo = length ds"
    "length cl = length ds" "length vo = length ds"
  shows "daily_frame ds (map Some op) (map Some hi) (map Some lo) (map Some cl) (map Some vo)
           = daily_of ds op hi lo cl vo"
proof -
  have 1: "groupby agg_first ds (map Some op) = map (\<lambda>k. Some (hd (group_of ds op k))) (group_keys ds)"
    using assms(1) agg_first_Some by (rule groupby_Some[where F=hd])
  have 2: "groupby agg_max ds (map Some hi) =
      map (\<lambda>k. Some (Max (set (group_of ds hi k)))) (group_keys ds)"
    using assms(2) agg_max_Some by (rule groupby_Some[where F="\<lambda>g. Max (set g)"])
  have 3: "groupby agg_min ds (map Some lo) =
      map (\<lambda>k. Some (Min (set (group_of ds lo k)))) (group_keys ds)"
    using assms(3) agg_min_Some by (rule groupby_Some[where F="\<lambda>g. Min (set g)"])
  have 4: "groupby agg_last ds (map Some cl) = map (\<lambda>k. Some (last (group_of ds cl k))) (group_keys ds)"
    using assms(4) agg_last_Some by (rule groupby_Some[where F=last])
  have 5: "groupby agg_sum ds (map Some vo) =
      map (\<lambda>k. Some (sum_list (group_of ds vo k))) (group_keys ds)"
    using assms(5) agg_sum_Some by (rule groupby_Some[where F=sum_list])
  show ?thesis unfolding daily_frame_def daily_of_def Let_def 1 2 3 4 5 ffill_map_Some ..
qed

lemma dropna_daily_of: "dropna (daily_of ds op hi lo cl vo) = daily_of ds op hi lo cl vo"
proof (rule dropna_complete)
  have "None \<notin> set (map (\<lambda>k. Some (last (group_of ds cl k))) (group_keys ds))" by auto
  then have m: "None \<notin> set (ewm_mean sp (map (\<lambda>k. Some (last (group_of ds cl k))) (group_keys ds)))"
    for sp by (rule ewm_mean_no_None)
  fix c assume "c \<in> set (columns (daily_of ds op hi lo cl vo))"
  then show "length (snd c) = length (index (daily_of ds op hi lo cl vo)) \<and> None \<notin> set (snd c)"
    unfolding daily_of_def Let_def
    using m ewm_mean_no_None[OF true_range_no_None]
    by (auto simp: length_true_range)
qed

lemma prepare_complete:
  assumes "complete_prices d ds op hi lo cl vo"
  shows "prepare_daily_data d = Inr (daily_of ds op hi lo cl vo)"
  using assms
  by (simp add: complete_prices_def prepare_daily_data_def daily_frame_complete dropna_daily_of)

lemma daily_of_columns:
  "getitem (columns (daily_of ds op hi lo cl vo)) ''open'' =
     Inr (map (\<lambda>k. Some (hd (group_of ds op k))) (group_keys ds))"
  "getitem (columns (daily_of ds op hi lo cl vo)) ''high'' =
     Inr (map (\<lambda>k. Some (Max (set (group_of ds hi k)))) (group_keys ds))"
  "getitem (columns (daily_of ds op hi lo cl vo)) ''low'' =
     Inr (map (\<lambda>k. Some (Min (set (group_of ds lo k)))) (group_keys ds))"
  "getitem (columns (daily_of ds op hi lo cl vo)) ''close'' =
     Inr (map (\<lambda>k. Some (last (group_of ds cl k))) (group_keys ds))"
  "getitem (columns (daily_of ds op hi lo cl vo)) ''volume'' =
     Inr (map (\<lambda>k. Some (sum_list (group_of ds vo k))) (group_keys ds))"
  "getitem (columns (daily_of ds op hi lo cl vo)) ''ma_short'' =
     Inr (ewm_mean short_ma (map (\<lambda>k. Some (last (group_of ds cl k))) (group_keys ds)))"
  "getitem (columns (daily_of ds op hi lo cl vo)) ''ma_long'' =
     Inr (ewm_mean long_ma (map (\<lambda>k. Some (last (group_of ds cl k))) (group_keys ds)))"
  by (simp_all add: daily_of_def Let_def getitem_def)

lemma daily_of_atr:
  "\<exists>a. getitem (columns (daily_of ds op hi lo cl vo)) ''atr'' = Inr a \<and>
       length a = length (group_keys ds)"
  by (simp add: daily_of_def Let_def getitem_def length_true_range)

lemma index_daily_of: "index (daily_of ds op hi lo cl vo) = group_keys ds"
  by (simp add: daily_of_def Let_def)

lemma group_keys_first:
  assumes "ds \<noteq> []"
  shows "\<exists>rest. group_keys ds = Min (set ds) # rest"
proof -
  have "sorted_list_of_set (set ds) =
      Min (set ds) # sorted_list_of_set (set ds - {Min (set ds)})"
    using assms by (intro sorted_list_of_set_nonempty) simp_all
  then show ?thesis unfolding group_keys_sorted_list by blast
qed

lemma ex_complete:
  "complete_prices ex_prices [5, 6, 6, 7, 8] [3, 4, 5, 8, 6] [4, 6, 8, 8, 6] [3, 4, 5, 6, 2]
     [4, 5, 8, 121 / 20, 2] [10, 20, 30, 40, 50]"
  by (simp add: complete_prices_def ex_prices_def getitem_def)

lemma zip_as_map_nth:
  assumes "length xs = length ds"
  shows "zip ds xs = map (\<lambda>i. (ds ! i, xs ! i)) [0..<length ds]"
  using assms by (intro nth_equalityI) simp_all

lemma group_of_day_cells:
  assumes "length xs = length ds"
  shows "group_of ds xs k = day_cells ds xs k"
  unfolding group_of_def day_cells_def zip_as_map_nth[OF assms]
  by (simp add: filter_map comp_def)

lemma valid_observed: "valid cs = observed cs"
  by (induction cs rule: valid.induct) (simp_all add: observed_def)

lemma agg_first_observed:
  "agg_first g = (if observed g = [] then None else Some (hd (observed g)))"
  unfolding agg_first_def valid_observed by (cases "observed g") simp_all

lemma agg_last_observed:
  "agg_last g = (if observed g = [] then None else Some (last (observed g)))"
proof (cases "observed g = []")
  case True
  then show ?thesis unfolding agg_last_def valid_observed by simp
next
  case False
  then obtain a l where r: "rev (observed g) = a # l" by (cases "rev (observed g)") auto
  have "last (observed g) = hd (rev (observed g))" using False by (simp add: hd_rev)
  then have "last (observed g) = a" using r by simp
  then show ?thesis unfolding agg_last_def valid_observed r using False by simp
qed

lemma agg_max_observed:
  "agg_max g = (if observed g = [] then None else Some (Max (set (observed g))))"
  unfolding agg_max_def valid_observed
  by (cases "observed g") (simp_all add: Max.set_eq_fold del: set_simps)

lemma agg_min_observed:
  "agg_min g = (if observed g = [] then None else Some (Min (set (observed g))))"
  unfolding agg_min_def valid_observed
  by (cases "observed g") (simp_all add: Min.set_eq_fold del: set_simps)

lemma groupby_first:
  assumes "length xs = length ds"
  shows "groupby agg_first ds xs = map (day_value hd ds xs) (group_keys ds)"
  by (simp add: groupby_def group_of_day_cells[OF assms] agg_first_observed day_value_def)

lemma groupby_last:
  assumes "length xs = length ds"
  shows "groupby agg_last ds xs = map (day_value last ds xs) (group_keys ds)"
  by (simp add: groupby_def group_of_day_cells[OF assms] agg_last_observed day_value_def)

lemma groupby_max:
  assumes "length xs = length ds"
  shows "groupby agg_max ds xs = map (day_value (\<lambda>vs. Max (set vs)) ds xs) (group_keys ds)"
  by (simp add: groupby_def group_of_day_cells[OF assms] agg_max_observed day_value_def)

lemma groupby_min:
  assumes "length xs = length ds"
  shows "groupby agg_min ds xs = map (day_value (\<lambda>vs. Min (set vs)) ds xs) (group_keys ds)"
  by (simp add: groupby_def group_of_day_cells[OF assms] agg_min_observed day_value_def)

lemma groupby_sum:
  assumes "length xs = length ds"
  shows "groupby agg_sum ds xs = map (daily_volume ds xs) (group_keys ds)"
  by (simp add: groupby_def group_of_day_cells[OF assms] agg_sum_def valid_observed
      daily_volume_def)

lemma ffill_from_nth:
  assumes "j < length xs"
  shows "ffill_from p xs ! j =
     (if filter (\<lambda>c. c \<noteq> None) (take (Suc j) xs) = [] then p
      else last (filter (\<lambda>c. c \<noteq> None) (take (Suc j) xs)))"
  using assms
proof (induction xs arbitrary: p j)
  case Nil
  then show ?case by simp
next
  case (Cons x xs)
  show ?case
  proof (cases j)
    case 0
    then show ?thesis by (cases x) simp_all
  next
    case (Suc j')
    then have j': "j' < length xs" using Cons.prems by simp
    show ?thesis
    proof (cases x)
      case None
      then show ?thesis using Cons.IH[OF j', of p] Suc by simp
    next
      case (Some v)
      then show ?thesis using Cons.IH[OF j', of "Some v"] Suc by simp
    qed
  qed
qed

lemma ffill_nth:
  assumes "j < length xs"
  shows "ffill xs ! j =
     (if filter (\<lambda>c. c \<noteq> None) (take (Suc j) xs) = [] then None
      else last (filter (\<lambda>c. c \<noteq> None) (take (Suc j) xs)))"
  unfolding ffill_def by (rule ffill_from_nth[OF assms])

lemma length_ffill_from [simp]: "length (ffill_from p xs) = length xs"
  by (induction p xs rule: ffill_from.induct) simp_all

lemma length_ffill [simp]: "length (ffill xs) = length xs"
  by (simp add: ffill_def)

lemma take_strictly_sorted:
  assumes "sorted_wrt (<) ks" and "j < length ks"
  shows "take (Suc j) ks = filter (\<lambda>k'. k' \<le> ks ! j) (ks :: int list)"
  using assms
proof (induction ks arbitrary: j)
  case Nil
  then show ?case by simp
next
  case (Cons a ks)
  show ?case
  proof (cases j)
    case 0
    have "filter (\<lambda>k'. k' \<le> a) ks = []" using Cons.prems(1) by (auto simp: filter_empty_conv)
    then show ?thesis using 0 by simp
  next
    case (Suc j')
    then have j': "j' < length ks" using Cons.prems(2) by simp
    have s: "sorted_wrt (<) ks" using Cons.prems(1) by simp
    have "a < ks ! j'" using Cons.prems(1) j' by simp
    then show ?thesis using Cons.IH[OF s j'] Suc by simp
  qed
qed

lemma group_keys_strict: "sorted_wrt (<) (group_keys ds)"
  by (simp add: strict_sorted_iff group_keys_def)

lemma ffill_map_nth:
  assumes "j < length (group_keys ds)"
  shows "ffill (map f (group_keys ds)) ! j = carried f ds (group_keys ds ! j)"
proof -
  let ?ks = "group_keys ds"
  let ?k = "?ks ! j"
  have t: "filter (\<lambda>c. c \<noteq> None) (take (Suc j) (map f ?ks)) =
      map f (filter (\<lambda>k'. k' \<le> ?k \<and> f k' \<noteq> None) ?ks)"
    unfolding take_map take_strictly_sorted[OF group_keys_strict assms]
    by (simp add: filter_map comp_def)
  have "ffill (map f ?ks) ! j =
     (if filter (\<lambda>k'. k' \<le> ?k \<and> f k' \<noteq> None) ?ks = [] then None
      else f (last (filter (\<lambda>k'. k' \<le> ?k \<and> f k' \<noteq> None) ?ks)))"
  proof -
    have l: "j < length (map f ?ks)" using assms by simp
    show ?thesis unfolding ffill_nth[OF l] t by (simp add: last_map del: not_None_eq)
  qed
  then show ?thesis by (simp add: carried_def Let_def group_keys_def del: not_None_eq)
qed

lemma ffill_map_carried:
  "ffill (map f (group_keys ds)) = map (carried f ds) (group_keys ds)"
  by (intro nth_equalityI) (simp_all add: ffill_map_nth)

lemma ffill_nth_None:
  assumes "j < length xs"
  shows "ffill xs ! j = None \<longleftrightarrow> (\<forall>i \<le> j. xs ! i = None)"
proof -
  let ?F = "filter (\<lambda>c. c \<noteq> None) (take (Suc j) xs)"
  have e: "?F = [] \<longleftrightarrow> (\<forall>i \<le> j. xs ! i = None)"
  proof -
    have "set (take (Suc j) xs) = {xs ! i | i. i \<le> j}"
      using assms by (auto simp: in_set_conv_nth less_Suc_eq_le) (metis le_imp_less_Suc min.absorb2 nth_take not_less_eq_eq not_le, force)
    then show ?thesis by (auto simp: filter_empty_conv)
  qed
  have n: "?F \<noteq> [] \<Longrightarrow> last ?F \<noteq> None"
  proof -
    assume "?F \<noteq> []"
    then have "last ?F \<in> set ?F" by (rule last_in_set)
    then show ?thesis by simp
  qed
  show ?thesis
  proof (cases "?F = []")
    case True
    then have "ffill xs ! j = None" unfolding ffill_nth[OF assms] by simp
    then show ?thesis using e True by blast
  next
    case False
    then have "ffill xs ! j = last ?F" unfolding ffill_nth[OF assms] by simp
    then have "ffill xs ! j \<noteq> None" using n[OF False] by simp
    then show ?thesis using e False by blast
  qed
qed

lemma ewm_from_Some:
  "x \<in> set (ewm_from f (Some w, ow) xs) \<Longrightarrow> x \<noteq> None"
proof (induction xs arbitrary: w ow)
  case Nil
  then show ?case by simp
next
  case (Cons c xs)
  then show ?case by (cases c) auto
qed

lemma ewm_from_None_nth:
  assumes "j < length xs"
  shows "ewm_from f (None, ow) xs ! j = None \<longleftrightarrow> (\<forall>i \<le> j. xs ! i = None)"
  using assms
proof (induction xs arbitrary: j)
  case Nil
  then show ?case by simp
next
  case (Cons c xs)
  show ?case
  proof (cases c)
    case None
    show ?thesis
    proof (cases j)
      case 0
      then show ?thesis using None by simp
    next
      case (Suc j')
      then have j': "j' < length xs" using Cons.prems by simp
      have "(\<forall>i \<le> Suc j'. (c # xs) ! i = None) \<longleftrightarrow> (\<forall>i \<le> j'. xs ! i = None)"
        using None by (auto simp: nth_Cons split: nat.splits) 
      then show ?thesis using Cons.IH[OF j'] None Suc by simp
    qed
  next
    case (Some v)
    have "ewm_from f (None, ow) (c # xs) ! j \<noteq> None"
    proof (cases j)
      case 0
      then show ?thesis using Some by simp
    next
      case (Suc j')
      then have "j' < length xs" using Cons.prems by simp
      then have "ewm_from f (Some v, ow) xs ! j' \<in> set (ewm_from f (Some v, ow) xs)" by simp
      then show ?thesis using ewm_from_Some Suc Some by simp
    qed
    moreover have "\<not> (\<forall>i \<le> j. (c # xs) ! i = None)" using Some by auto
    ultimately show ?thesis by blast
  qed
qed

lemma ewm_mean_nth_None:
  assumes "j < length xs"
  shows "ewm_mean sp xs ! j = None \<longleftrightarrow> (\<forall>i \<le> j. xs ! i = None)"
proof (cases xs)
  case Nil
  then show ?thesis using assms by simp
next
  case (Cons c rest)
  show ?thesis
  proof (cases j)
    case 0
    then show ?thesis using Cons by (simp add: ewm_mean_def)
  next
    case (Suc j')
    then have j': "j' < length rest" using assms Cons by simp
    show ?thesis
    proof (cases c)
      case None
      have "(\<forall>i \<le> Suc j'. (c # rest) ! i = None) \<longleftrightarrow> (\<forall>i \<le> j'. rest ! i = None)"
        using None by (auto simp: nth_Cons split: nat.splits)
      then show ?thesis using ewm_from_None_nth[OF j'] None Suc Cons by (simp add: ewm_mean_def)
    next
      case (Some v)
      have "ewm_from (1 - 2 / (real sp + 1)) (Some v, 1) rest ! j'
          \<in> set (ewm_from (1 - 2 / (real sp + 1)) (Some v, 1) rest)"
        using j' by simp
      then have "ewm_mean sp xs ! j \<noteq> None"
        using ewm_from_Some Suc Some Cons by (simp add: ewm_mean_def)
      moreover have "\<not> (\<forall>i \<le> j. xs ! i = None)" using Some Cons by auto
      ultimately show ?thesis by blast
    qed
  qed
qed

lemma ewm_mean_ffill_None:
  assumes "j < length xs"
  shows "ewm_mean sp (ffill xs) ! j = None \<longleftrightarrow> ffill xs ! j = None"
proof -
  have "(\<forall>i \<le> j. ffill xs ! i = None) \<longleftrightarrow> ffill xs ! j = None"
  proof
    assume "\<forall>i \<le> j. ffill xs ! i = None"
    then show "ffill xs ! j = None" by simp
  next
    assume "ffill xs ! j = None"
    then have a: "\<forall>i \<le> j. xs ! i = None" using ffill_nth_None[OF assms] by simp
    show "\<forall>i \<le> j. ffill xs ! i = None"
    proof (intro allI impI)
      fix i assume "i \<le> j"
      then have "i < length xs" "\<forall>i' \<le> i. xs ! i' = None" using assms a by auto
      then show "ffill xs ! i = None" using ffill_nth_None by blast
    qed
  qed
  then show ?thesis using ewm_mean_nth_None[of j "ffill xs" sp] assms by simp
qed

lemma ffill_all_Some: "ffill (map (\<lambda>k. Some (f k)) ks) = map (\<lambda>k. Some (f k)) ks"
proof -
  have "ffill_from p (map (\<lambda>k. Some (f k)) ks) = map (\<lambda>k. Some (f k)) ks" for p
    by (induction ks arbitrary: p) simp_all
  then show ?thesis by (simp add: ffill_def)
qed

lemma ffill_daily_volume:
  "ffill (map (daily_volume ds vo) (group_keys ds)) = map (daily_volume ds vo) (group_keys ds)"
  unfolding daily_volume_def by (rule ffill_all_Some)

lemma daily_frame_general:
  assumes "length op = length ds" "length hi = length ds" "length lo = length ds"
    "length cl = length ds" "length vo = length ds"
  shows "daily_frame ds op hi lo cl vo =
     \<lparr>index = group_keys ds,
      columns =
        [(''open'', map (daily_open ds op) (group_keys ds)),
         (''high'', map (daily_high ds hi) (group_keys ds)),
         (''low'', map (daily_low ds lo) (group_keys ds)),
         (''close'', map (daily_close ds cl) (group_keys ds)),
         (''volume'', map (daily_volume ds vo) (group_keys ds)),
         (''ma_short'', ewm_mean short_ma (map (daily_close ds cl) (group_keys ds))),
         (''ma_long'', ewm_mean long_ma (map (daily_close ds cl) (group_keys ds))),
         (''atr'', ewm_mean vol_window
            (true_range (map (daily_high ds hi) (group_keys ds))
               (map (daily_low ds lo) (group_keys ds))
               (map (daily_close ds cl) (group_keys ds))))]\<rparr>"
  unfolding daily_frame_def Let_def groupby_first[OF assms(1)] groupby_max[OF assms(2)]
    groupby_min[OF assms(3)] groupby_last[OF assms(4)] groupby_sum[OF assms(5)]
    ffill_daily_volume
  unfolding ffill_map_carried daily_open_def daily_high_def daily_low_def daily_close_def ..

lemma ewm_mean_carried_None:
  assumes "j < length (group_keys ds)"
  shows "ewm_mean sp (map (carried f ds) (group_keys ds)) ! j = None
           \<longleftrightarrow> carried f ds (group_keys ds ! j) = None"
proof -
  have l: "j < length (map f (group_keys ds))" using assms by simp
  show ?thesis
    unfolding ffill_map_carried[symmetric] ewm_mean_ffill_None[OF l] ffill_map_nth[OF assms] ..
qed

lemma atr_nth_Some:
  assumes "j < length (ewm_mean sp (true_range h l c))"
  shows "ewm_mean sp (true_range h l c) ! j \<noteq> None"
  using ewm_mean_no_None[OF true_range_no_None, of sp h l c] assms by (metis nth_mem)

lemma take_rows_filter:
  assumes "\<And>j. j < length ks \<Longrightarrow> P j = Q (ks ! j)"
  shows "take_rows (filter P [0..<length ks]) (map g ks) = map g (filter Q ks)"
proof -
  have f: "filter P [0..<length ks] = filter (\<lambda>j. Q (ks ! j)) [0..<length ks]"
    using assms by (intro filter_cong) simp_all
  have "filter Q ks = filter Q (map ((!) ks) [0..<length ks])" by (simp add: map_nth)
  also have "\<dots> = map ((!) ks) (filter (\<lambda>j. Q (ks ! j)) [0..<length ks])"
    by (simp add: filter_map comp_def)
  finally have q: "filter Q ks = map ((!) ks) (filter (\<lambda>j. Q (ks ! j)) [0..<length ks])" .
  have "take_rows (filter P [0..<length ks]) (map g ks) =
      map (\<lambda>j. g (ks ! j)) (filter (\<lambda>j. Q (ks ! j)) [0..<length ks])"
    unfolding f take_rows_def by (intro map_cong) simp_all
  also have "\<dots> = map g (filter Q ks)" unfolding q by (simp add: comp_def)
  finally show ?thesis .
qed

lemma take_rows_filter_id:
  assumes "\<And>j. j < length ks \<Longrightarrow> P j = Q (ks ! j)"
  shows "take_rows (filter P [0..<length ks]) ks = filter Q ks"
  using take_rows_filter[where P=P and Q=Q and ks=ks and g="\<lambda>k. k"] assms by simp

lemma row_complete_daily:
  assumes len: "length op = length ds" "length hi = length ds" "length lo = length ds"
    "length cl = length ds" "length vo = length ds"
    and j: "j < length (group_keys ds)"
  shows "row_complete (daily_frame ds op hi lo cl vo) j
           = complete_day ds op hi lo cl (group_keys ds ! j)"
proof -
  have v: "daily_volume ds vo (group_keys ds ! j) \<noteq> None" by (simp add: daily_volume_def)
  have s: "ewm_mean short_ma (map (daily_close ds cl) (group_keys ds)) ! j = None
      \<longleftrightarrow> daily_close ds cl (group_keys ds ! j) = None"
    unfolding daily_close_def by (rule ewm_mean_carried_None[OF j])
  have l: "ewm_mean long_ma (map (daily_close ds cl) (group_keys ds)) ! j = None
      \<longleftrightarrow> daily_close ds cl (group_keys ds ! j) = None"
    unfolding daily_close_def by (rule ewm_mean_carried_None[OF j])
  have a: "ewm_mean vol_window
            (true_range (map (daily_high ds hi) (group_keys ds))
               (map (daily_low ds lo) (group_keys ds))
               (map (daily_close ds cl) (group_keys ds))) ! j \<noteq> None"
    by (rule atr_nth_Some) (simp add: length_true_range j)
  show ?thesis
    unfolding daily_frame_general[OF len] row_complete_def complete_day_def
    using j v s l a by (simp del: not_None_eq)
qed

lemma dropna_daily_index:
  assumes len: "length op = length ds" "length hi = length ds" "length lo = length ds"
    "length cl = length ds" "length vo = length ds"
  shows "index (dropna (daily_frame ds op hi lo cl vo))
           = filter (complete_day ds op hi lo cl) (group_keys ds)"
proof -
  have i: "index (daily_frame ds op hi lo cl vo) = group_keys ds"
    by (simp add: daily_frame_def Let_def)
  have "take_rows (filter (row_complete (daily_frame ds op hi lo cl vo))
            [0..<length (group_keys ds)]) (group_keys ds)
      = filter (complete_day ds op hi lo cl) (group_keys ds)"
    by (rule take_rows_filter_id) (rule row_complete_daily[OF len])
  then show ?thesis
    unfolding dropna_def Let_def i by simp
qed

lemma dropna_daily_column:
  assumes len: "length op = length ds" "length hi = length ds" "length lo = length ds"
    "length cl = length ds" "length vo = length ds"
    and c: "map_of (columns (daily_frame ds op hi lo cl vo)) name = Some (map g (group_keys ds))"
  shows "getitem (columns (dropna (daily_frame ds op hi lo cl vo))) name
           = Inr (map g (filter (complete_day ds op hi lo cl) (group_keys ds)))"
proof -
  let ?f = "daily_frame ds op hi lo cl vo"
  let ?keep = "filter (row_complete ?f) [0..<length (group_keys ds)]"
  have i: "index ?f = group_keys ds" by (simp add: daily_frame_def Let_def)
  have m: "map_of (map (\<lambda>c. (fst c, h (snd c))) cs) name = map_option h (map_of cs name)"
    for h :: "series \<Rightarrow> series" and cs
    by (induction cs) auto
  have t: "take_rows ?keep (map g (group_keys ds))
      = map g (filter (complete_day ds op hi lo cl) (group_keys ds))"
    by (rule take_rows_filter) (rule row_complete_daily[OF len])
  show ?thesis
    unfolding dropna_def Let_def i getitem_def by (simp add: m c t)
qed

lemma carried_own:
  assumes k: "k \<in> set ds" and f: "f k \<noteq> None"
  shows "carried f ds k = f k"
proof -
  define hv where "hv = filter (\<lambda>k'. k' \<le> k \<and> f k' \<noteq> None) (sort (remdups ds))"
  have in_have: "k \<in> set hv" using k f by (simp add: hv_def)
  then have ne: "hv \<noteq> []" by auto
  have s: "sorted hv" unfolding hv_def by (rule sorted_wrt_filter) simp
  have "last hv \<in> set hv" using ne by (rule last_in_set)
  then have le: "last hv \<le> k" by (simp add: hv_def)
  obtain i where i: "i < length hv" "hv ! i = k"
    using in_have by (metis in_set_conv_nth)
  have "hv ! i \<le> hv ! (length hv - 1)"
    using s i(1) by (intro sorted_nth_mono) simp_all
  then have "k \<le> last hv" using i(2) ne by (simp add: last_conv_nth)
  with le have e: "last hv = k" by simp
  have "carried f ds k = (if hv = [] then None else f (last hv))"
    unfolding carried_def hv_def Let_def ..
  then show ?thesis using ne e by simp
qed

lemma set_observed_day_cells:
  "set (observed (day_cells ds xs k))
     = {v. \<exists>i < length ds. ds ! i = k \<and> xs ! i = Some v}"
proof -
  have "set (observed cs) = {v. Some v \<in> set cs}" for cs :: "'a option list"
    unfolding observed_def by (induction cs) auto
  moreover have "set (day_cells ds xs k) = {xs ! i | i. i < length ds \<and> ds ! i = k}"
    unfolding day_cells_def by auto
  ultimately have "set (observed (day_cells ds xs k))
      = {v. Some v \<in> {xs ! i | i. i < length ds \<and> ds ! i = k}}" by simp
  also have "\<dots> = {v. \<exists>i < length ds. ds ! i = k \<and> xs ! i = Some v}"
    by (intro Collect_cong) (auto simp: eq_commute[of "Some _"])
  finally show ?thesis .
qed

lemma high_ge_low:
  assumes rows: "\<forall>i < length ds. \<exists>l h. lo ! i = Some l \<and> hi ! i = Some h \<and> l \<le> h"
    and k: "k \<in> set ds"
  shows "\<exists>l h. daily_low ds lo k = Some l \<and> daily_high ds hi k = Some h \<and> l \<le> h"
proof -
  obtain i where i: "i < length ds" "ds ! i = k" using k by (metis in_set_conv_nth)
  obtain l h where lh: "lo ! i = Some l" "hi ! i = Some h" "l \<le> h" using rows i(1) by blast
  let ?L = "observed (day_cells ds lo k)" and ?H = "observed (day_cells ds hi k)"
  have l: "l \<in> set ?L" unfolding set_observed_day_cells using i lh(1) by blast
  have h: "h \<in> set ?H" unfolding set_observed_day_cells using i lh(2) by blast
  have nl: "?L \<noteq> []" and nh: "?H \<noteq> []" using l h by auto
  have dl: "day_value (\<lambda>vs. Min (set vs)) ds lo k = Some (Min (set ?L))"
    using nl by (simp add: day_value_def)
  have dh: "day_value (\<lambda>vs. Max (set vs)) ds hi k = Some (Max (set ?H))"
    using nh by (simp add: day_value_def)
  have cl: "daily_low ds lo k = Some (Min (set ?L))"
    unfolding daily_low_def using carried_own[OF k, of "day_value (\<lambda>vs. Min (set vs)) ds lo"] dl
    by simp
  have ch: "daily_high ds hi k = Some (Max (set ?H))"
    unfolding daily_high_def using carried_own[OF k, of "day_value (\<lambda>vs. Max (set vs)) ds hi"] dh
    by simp
  have "Min (set ?L) \<le> l" using l by simp
  moreover have "h \<le> Max (set ?H)" using h by simp
  ultimately have "Min (set ?L) \<le> Max (set ?H)" using lh(3) by linarith
  with cl ch show ?thesis by blast
qed

lemma prepare_price_table:
  assumes "price_table d ds op hi lo cl vo"
  shows "prepare_daily_data d = Inr (dropna (daily_frame ds op hi lo cl vo))"
  using assms by (simp add: price_table_def prepare_daily_data_def)

lemma gappy_prepare: "prepare_daily_data gappy_prices = Inr gappy_daily"
  by (simp add: prepare_daily_data_def gappy_prices_def gappy_daily_def getitem_def daily_frame_def
      group_keys_def groupby_def group_of_def agg_first_def agg_last_def agg_max_def agg_min_def
      agg_sum_def ffill_def ewm_mean_def true_range_def shift1_def sub_def abs_cell_def
      fillna_def dropna_def Let_def row_complete_def take_rows_def short_ma_def long_ma_def
      vol_window_def del: not_None_eq)

lemma gappy_table:
  "price_table gappy_prices [5, 6, 6, 7] [None, None, Some 4, None]
     [Some 4, Some 6, Some 8, Some 9] [Some 3, Some 4, Some 5, Some 7]
     [Some 4, Some 5, None, None] [Some 10, None, Some 30, None]"
  by (simp add: price_table_def gappy_prices_def getitem_def)

lemma upt4: "[0..<4] = [0, 1, 2, 3]"
  by (simp add: upt_rec)

lemma gappy_cells:
  "day_cells [5, 6, 6, 7] xs 5 = [xs ! 0]"
  "day_cells [5, 6, 6, 7] xs 6 = [xs ! 1, xs ! 2]"
  "day_cells [5, 6, 6, 7] xs 7 = [xs ! 3]"
  by (simp_all add: day_cells_def upt4 numeral_2_eq_2 numeral_3_eq_3)

lemma gappy_days: "sort (remdups [5, 6, 6, 7 :: int]) = [5, 6, 7]"
  by simp

lemma gappy_values:
  "map (daily_open [5, 6, 6, 7] [None, None, Some 4, None]) [5, 6, 7] = [None, Some 4, Some 4]"
  "map (daily_high [5, 6, 6, 7] [Some 4, Some 6, Some 8, Some 9]) [5, 6, 7]
     = [Some 4, Some 8, Some 9]"
  "map (daily_low [5, 6, 6, 7] [Some 3, Some 4, Some 5, Some 7]) [5, 6, 7]
     = [Some 3, Some 4, Some 7]"
  "map (daily_close [5, 6, 6, 7] [Some 4, Some 5, None, None]) [5, 6, 7]
     = [Some 4, Some 5, Some 5]"
  "map (daily_volume [5, 6, 6, 7] [Some 10, None, Some 30, None]) [5, 6, 7]
     = [Some 10, Some 30, Some 0]"
  by (simp_all add: daily_open_def daily_high_def daily_low_def daily_close_def daily_volume_def
      carried_def day_value_def observed_def gappy_cells gappy_days Let_def del: not_None_eq)

lemma gappy_rows:
  "\<forall>i < length [5, 6, 6, 7 :: int].
     \<exists>l h. ([Some 3, Some 4, Some 5, Some 7] :: series) ! i = Some l \<and>
           ([Some 4, Some 6, Some 8, Some 9] :: series) ! i = Some h \<and> l \<le> h"
proof (intro allI impI)
  fix i :: nat
  assume "i < length [5, 6, 6, 7 :: int]"
  then have "i = 0 \<or> i = 1 \<or> i = 2 \<or> i = 3" by (simp add: less_Suc_eq eval_nat_numeral)
  then show "\<exists>l h. ([Some 3, Some 4, Some 5, Some 7] :: series) ! i = Some l \<and>
           ([Some 4, Some 6, Some 8, Some 9] :: series) ! i = Some h \<and> l \<le> h"
    by (elim disjE) (simp_all add: numeral_2_eq_2 numeral_3_eq_3)
qed

text \<open>
  Claim C6 says that every price table with a \<^verbatim>\<open>date\<close> column gets exactly one daily row
  per distinct date. Here two dates are present and the open of the first is missing:
  nothing can fill it forward, and \<^verbatim>\<open>dropna\<close> removes the day, so one row remains.
\<close>

theorem daily_rows_counterexample:
  "prepare_daily_data nan_open_prices =
     Inr \<lparr>index = [6],
          columns = [(''open'', [Some 2]), (''high'', [Some 3]), (''low'', [Some 2]),
                     (''close'', [Some 3]), (''volume'', [Some 20]),
                     (''ma_short'', [Some (101 / 40)]), (''ma_long'', [Some (1001 / 400)]),
                     (''atr'', [Some 1])]\<rparr>"
  by (simp add: prepare_daily_data_def nan_open_prices_def getitem_def daily_frame_def
      group_keys_def groupby_def group_of_def agg_first_def agg_last_def agg_max_def agg_min_def
      agg_sum_def ffill_def ewm_mean_def true_range_def shift1_def sub_def abs_cell_def
      fillna_def dropna_def Let_def row_complete_def take_rows_def short_ma_def long_ma_def
      vol_window_def del: not_None_eq)

text \<open>
  Claim C6, amended. For every price table with a \<^verbatim>\<open>date\<close> column, the daily data has
  exactly one row for each distinct date that is complete after the forward fill (its
  open, high, low and close each have a non-missing value on that date or on an earlier
  one) and no row for any other date, in ascending date order. In such a row each of open,
  high, low and close is the date's own first open, greatest high, least low and last
  close over its non-missing intraday values when the date has one, and otherwise the
  value carried forward from the latest earlier date that has one; the volume is the sum
  of the date's non-missing intraday volumes. When every input row has a high and a low
  with high at least low, so has every daily row.
\<close>

theorem daily_aggregation:
  assumes t: "price_table d ds op hi lo cl vo"
  shows "\<exists>dd. prepare_daily_data d = Inr dd \<and>
      index dd = filter (complete_day ds op hi lo cl) (sort (remdups ds)) \<and>
      getitem (columns dd) ''open'' = Inr (map (daily_open ds op) (index dd)) \<and>
      getitem (columns dd) ''high'' = Inr (map (daily_high ds hi) (index dd)) \<and>
      getitem (columns dd) ''low'' = Inr (map (daily_low ds lo) (index dd)) \<and>
      getitem (columns dd) ''close'' = Inr (map (daily_close ds cl) (index dd)) \<and>
      getitem (columns dd) ''volume'' = Inr (map (daily_volume ds vo) (index dd)) \<and>
      ((\<forall>i < length ds. \<exists>l h. lo ! i = Some l \<and> hi ! i = Some h \<and> l \<le> h) \<longrightarrow>
         (\<forall>k \<in> set (index dd).
            \<exists>l h. daily_low ds lo k = Some l \<and> daily_high ds hi k = Some h \<and> l \<le> h))"
proof -
  let ?dd = "dropna (daily_frame ds op hi lo cl vo)"
  have len: "length op = length ds" "length hi = length ds" "length lo = length ds"
    "length cl = length ds" "length vo = length ds"
    using t by (simp_all add: price_table_def)
  note col = dropna_daily_column[OF len]
  have cols: "columns (daily_frame ds op hi lo cl vo) = columns (daily_frame ds op hi lo cl vo)" ..
  have i: "index ?dd = filter (complete_day ds op hi lo cl) (sort (remdups ds))"
    unfolding dropna_daily_index[OF len] group_keys_def ..
  have i': "filter (complete_day ds op hi lo cl) (group_keys ds) = index ?dd"
    unfolding dropna_daily_index[OF len] ..
  show ?thesis
  proof (intro exI conjI)
    show "prepare_daily_data d = Inr ?dd" by (rule prepare_price_table[OF t])
    show "index ?dd = filter (complete_day ds op hi lo cl) (sort (remdups ds))" by (rule i)
    show "getitem (columns ?dd) ''open'' = Inr (map (daily_open ds op) (index ?dd))"
      unfolding i'[symmetric] by (rule col) (simp add: daily_frame_general[OF len])
    show "getitem (columns ?dd) ''high'' = Inr (map (daily_high ds hi) (index ?dd))"
      unfolding i'[symmetric] by (rule col) (simp add: daily_frame_general[OF len])
    show "getitem (columns ?dd) ''low'' = Inr (map (daily_low ds lo) (index ?dd))"
      unfolding i'[symmetric] by (rule col) (simp add: daily_frame_general[OF len])
    show "getitem (columns ?dd) ''close'' = Inr (map (daily_close ds cl) (index ?dd))"
      unfolding i'[symmetric] by (rule col) (simp add: daily_frame_general[OF len])
    show "getitem (columns ?dd) ''volume'' = Inr (map (daily_volume ds vo) (index ?dd))"
      unfolding i'[symmetric] by (rule col) (simp add: daily_frame_general[OF len])
    show "(\<forall>i < length ds. \<exists>l h. lo ! i = Some l \<and> hi ! i = Some h \<and> l \<le> h) \<longrightarrow>
         (\<forall>k \<in> set (index ?dd).
            \<exists>l h. daily_low ds lo k = Some l \<and> daily_high ds hi k = Some h \<and> l \<le> h)"
    proof (intro impI ballI)
      fix k
      assume rows: "\<forall>i < length ds. \<exists>l h. lo ! i = Some l \<and> hi ! i = Some h \<and> l \<le> h"
        and "k \<in> set (index ?dd)"
      then have "k \<in> set ds" unfolding i by simp
      with rows show "\<exists>l h. daily_low ds lo k = Some l \<and> daily_high ds hi k = Some h \<and> l \<le> h"
        by (rule high_ge_low)
    qed
  qed
qed

theorem daily_aggregation_witness:
  "price_table gappy_prices [5, 6, 6, 7] [None, None, Some 4, None]
     [Some 4, Some 6, Some 8, Some 9] [Some 3, Some 4, Some 5, Some 7]
     [Some 4, Some 5, None, None] [Some 10, None, Some 30, None] \<and>
   prepare_daily_data gappy_prices = Inr gappy_daily \<and>
   index gappy_daily = [6, 7] \<and>
   getitem (columns gappy_daily) ''open'' = Inr [Some 4, Some 4] \<and>
   getitem (columns gappy_daily) ''high'' = Inr [Some 8, Some 9] \<and>
   getitem (columns gappy_daily) ''low'' = Inr [Some 4, Some 7] \<and>
   getitem (columns gappy_daily) ''close'' = Inr [Some 5, Some 5] \<and>
   getitem (columns gappy_daily) ''volume'' = Inr [Some 30, Some 0] \<and>
   (\<exists>l h. daily_low [5, 6, 6, 7] [Some 3, Some 4, Some 5, Some 7] 6 = Some l \<and>
      daily_high [5, 6, 6, 7] [Some 4, Some 6, Some 8, Some 9] 6 = Some h \<and> l \<le> h) \<and>
   (\<exists>l h. daily_low [5, 6, 6, 7] [Some 3, Some 4, Some 5, Some 7] 7 = Some l \<and>
      daily_high [5, 6, 6, 7] [Some 4, Some 6, Some 8, Some 9] 7 = Some h \<and> l \<le> h)"
proof -
  let ?ds = "[5, 6, 6, 7] :: int list"
  let ?op = "[None, None, Some 4, None] :: series"
  let ?hi = "[Some 4, Some 6, Some 8, Some 9] :: series"
  let ?lo = "[Some 3, Some 4, Some 5, Some 7] :: series"
  let ?cl = "[Some 4, Some 5, None, None] :: series"
  let ?vo = "[Some 10, None, Some 30, None] :: series"
  from daily_aggregation [OF gappy_table] obtain dd where
    dd: "prepare_daily_data gappy_prices = Inr dd"
      "index dd = filter (complete_day ?ds ?op ?hi ?lo ?cl) (sort (remdups ?ds))"
      "getitem (columns dd) ''open'' = Inr (map (daily_open ?ds ?op) (index dd))"
      "getitem (columns dd) ''high'' = Inr (map (daily_high ?ds ?hi) (index dd))"
      "getitem (columns dd) ''low'' = Inr (map (daily_low ?ds ?lo) (index dd))"
      "getitem (columns dd) ''close'' = Inr (map (daily_close ?ds ?cl) (index dd))"
      "getitem (columns dd) ''volume'' = Inr (map (daily_volume ?ds ?vo) (index dd))"
      "(\<forall>i < length ?ds. \<exists>l h. ?lo ! i = Some l \<and> ?hi ! i = Some h \<and> l \<le> h) \<longrightarrow>
         (\<forall>k \<in> set (index dd).
            \<exists>l h. daily_low ?ds ?lo k = Some l \<and> daily_high ?ds ?hi k = Some h \<and> l \<le> h)"
    by blast
  from dd(1) have e: "dd = gappy_daily" unfolding gappy_prepare by simp
  have c: "filter (complete_day ?ds ?op ?hi ?lo ?cl) [5, 6, 7] = [6, 7]"
    using gappy_values(1-4) by (simp add: complete_day_def del: not_None_eq)
  have i: "index gappy_daily = [6, 7]" using dd(2) unfolding e gappy_days c .
  have v: "map (daily_open ?ds ?op) [6, 7] = [Some 4, Some 4]"
    "map (daily_high ?ds ?hi) [6, 7] = [Some 8, Some 9]"
    "map (daily_low ?ds ?lo) [6, 7] = [Some 4, Some 7]"
    "map (daily_close ?ds ?cl) [6, 7] = [Some 5, Some 5]"
    "map (daily_volume ?ds ?vo) [6, 7] = [Some 30, Some 0]"
    using gappy_values by simp_all
  from dd(8) gappy_rows have
    "\<forall>k \<in> set (index gappy_daily).
       \<exists>l h. daily_low ?ds ?lo k = Some l \<and> daily_high ?ds ?hi k = Some h \<and> l \<le> h"
    unfolding e by (rule mp)
  then have lh:
    "\<exists>l h. daily_low ?ds ?lo 6 = Some l \<and> daily_high ?ds ?hi 6 = Some h \<and> l \<le> h"
    "\<exists>l h. daily_low ?ds ?lo 7 = Some l \<and> daily_high ?ds ?hi 7 = Some h \<and> l \<le> h"
    unfolding i by simp_all
  show ?thesis
    using gappy_table gappy_prepare i dd(3-7)[unfolded e i v] lh by (intro conjI)
qed

text \<open>
  Claim C9. For every non-empty price table with a \<^verbatim>\<open>date\<close> column and no missing
  value, the module computes a regime calendar whose first row is the earliest date
  present and is labelled DOWNTREND: the first long average is the first close itself, so
  the close is not above it, and the short average has no earlier value to rise from.
\<close>

theorem first_day_downtrend:
  assumes "complete_prices d ds op hi lo cl vo" and "ds \<noteq> []"
  shows "\<exists>r rs. regimes_of d = Inr (r # rs) \<and> fst r = Min (set ds) \<and>
           trend (snd r) = Some (trend_value DOWNTREND)"
proof -
  let ?dd = "daily_of ds op hi lo cl vo"
  let ?cl = "map (\<lambda>k. Some (last (group_of ds cl k))) (group_keys ds)"
  let ?ml = "ewm_mean long_ma ?cl"
  let ?ms = "ewm_mean short_ma ?cl"
  from group_keys_first[OF assms(2)] obtain rest where k: "group_keys ds = Min (set ds) # rest"
    by blast
  obtain a where a: "getitem (columns ?dd) ''atr'' = Inr a" "length a = length (group_keys ds)"
    using daily_of_atr by blast
  let ?T = "classify_trend ?cl ?ml ?ms"
  let ?rows = "map (\<lambda>(t, v, x). \<lparr>trend = t, volatility = v, atr = x\<rparr>)
                 (zip ?T (zip (classify_volatility a) a))"
  have c: "classify_regimes ?dd = Inr (zip (group_keys ds) ?rows)"
    by (simp add: classify_regimes_def daily_of_columns a(1) index_daily_of)
  have n: "0 < length (group_keys ds)" unfolding k by simp
  have lT: "length ?T = length (group_keys ds)" by (simp add: length_classify_trend)
  have lr: "length ?rows = length (group_keys ds)"
    by (simp add: lT a(2) length_classify_volatility)
  then obtain r0 rows' where rows: "?rows = r0 # rows'"
    using n by (cases ?rows) auto
  have z: "zip (group_keys ds) ?rows = (Min (set ds), r0) # zip rest rows'"
    by (simp only: rows) (simp add: k)
  have "r0 = ?rows ! 0" unfolding rows by simp
  also have "\<dots> = (\<lambda>(t, v, x). \<lparr>trend = t, volatility = v, atr = x\<rparr>)
                 (zip ?T (zip (classify_volatility a) a) ! 0)"
    using n by (intro nth_map) (simp add: lT a(2) length_classify_volatility)
  finally have "trend r0 = ?T ! 0"
    using n by (simp add: lT a(2) length_classify_volatility)
  also have "\<dots> = Some (trend_value (spec_trend (above_long ?cl ?ml 0) (rising_short ?ms 0)))"
    using n by (intro nth_classify_trend) simp_all
  also have "above_long ?cl ?ml 0 = False"
  proof -
    have "?ml ! 0 = ?cl ! 0" using n by (intro ewm_mean_first) auto
    then show ?thesis using n by (simp add: above_long_def)
  qed
  also have "rising_short ?ms 0 = False" by (simp add: rising_short_def)
  finally have t: "trend r0 = Some (trend_value DOWNTREND)" by (simp add: spec_trend_def)
  have "regimes_of d = Inr ((Min (set ds), r0) # zip rest rows')"
    using prepare_complete[OF assms(1)] c z by (simp add: regimes_of_def)
  then show ?thesis using t by auto
qed

theorem first_day_downtrend_witness:
  "complete_prices ex_prices [5, 6, 6, 7, 8] [3, 4, 5, 8, 6] [4, 6, 8, 8, 6] [3, 4, 5, 6, 2]
     [4, 5, 8, 121 / 20, 2] [10, 20, 30, 40, 50] \<and>
   regimes_of ex_prices = Inr ex_calendar \<and>
   fst (hd ex_calendar) = 5 \<and> trend (snd (hd ex_calendar)) = Some ''downtrend''"
proof -
  have ne: "[5, 6, 6, 7, 8] \<noteq> ([] :: int list)" by simp
  from first_day_downtrend [OF ex_complete ne] obtain r rs where
    r: "regimes_of ex_prices = Inr (r # rs)" "fst r = Min (set [5, 6, 6, 7, 8])"
      "trend (snd r) = Some (trend_value DOWNTREND)"
    by blast
  from r(1) have e: "ex_calendar = r # rs" unfolding ex_regimes_of by simp
  have m: "Min (set [5, 6, 6, 7, 8 :: int]) = 5" by simp
  show ?thesis using ex_complete ex_regimes_of r(2,3) unfolding e m by simp
qed

end
